theory Spec2Isabelle
  imports Main
begin

section \<open>Python strings\<close>

text \<open>
  A Python \<open>str\<close> is a sequence of Unicode code points and \<open>len\<close> counts code points,
  so a string is modelled as a list of code points (natural numbers).  The function
  \<open>str\<close> turns an ASCII literal into such a list.
\<close>

type_synonym pystr = "nat list"

definition str :: "string \<Rightarrow> pystr" where
  "str s = map of_char s"

abbreviation nl :: nat where
  "nl \<equiv> 10"

section \<open>function.py: prune_messages\<close>

text \<open>A chat message is the dictionary \<open>{"role": ..., "content": ...}\<close>.\<close>

record message =
  role :: pystr
  content :: pystr

text \<open>
  The body of the \<open>for message in reversed(messages)\<close> loop.  The arguments are the
  entries still to be visited (newest first), \<open>max_chars\<close>, and the loop variables
  \<open>pruned_messages\<close> and \<open>total_chars\<close>; both \<open>break\<close> statements return the
  list built so far.
\<close>

fun prune_loop :: "message list \<Rightarrow> int \<Rightarrow> message list \<Rightarrow> int \<Rightarrow> message list" where
  "prune_loop [] max_chars pruned_messages total_chars = pruned_messages"
| "prune_loop (m # ms) max_chars pruned_messages total_chars =
     (let content_length = int (length (content m));
          remaining_chars = max_chars - total_chars
      in if remaining_chars \<le> 0 then pruned_messages
         else if content_length > remaining_chars then
           pruned_messages @ [\<lparr>role = role m, content = take (nat remaining_chars) (content m)\<rparr>]
         else prune_loop ms max_chars (pruned_messages @ [m]) (total_chars + content_length))"

definition prune_messages :: "message list \<Rightarrow> int \<Rightarrow> message list" where
  "prune_messages messages max_chars = rev (prune_loop (rev messages) max_chars [] 0)"

text \<open>The total content length of a list of messages.\<close>

definition total_content :: "message list \<Rightarrow> int" where
  "total_content ms = sum_list (map (\<lambda>m. int (length (content m))) ms)"

section \<open>handler.py: splitting a long response into chunks\<close>

text \<open>Python's \<open>s.split("\n")\<close> and \<open>"\n".join(xs)\<close>.\<close>

fun split_nl :: "pystr \<Rightarrow> pystr list" where
  "split_nl [] = [[]]"
| "split_nl (c # cs) =
     (if c = nl then [] # split_nl cs
      else (case split_nl cs of [] \<Rightarrow> [[c]] | l # ls \<Rightarrow> (c # l) # ls))"

fun join_nl :: "pystr list \<Rightarrow> pystr" where
  "join_nl [] = []"
| "join_nl [x] = x"
| "join_nl (x # y # zs) = x @ nl # join_nl (y # zs)"

text \<open>
  The loop of \<open>send_message_kwargs_long\<close> over the lines, with the loop variables
  \<open>chunk\<close> and \<open>chunks\<close>; it returns both when the lines are used up.
\<close>

fun kwargs_loop :: "pystr list \<Rightarrow> pystr \<Rightarrow> pystr list \<Rightarrow> pystr list \<times> pystr" where
  "kwargs_loop [] chunk chunks = (chunks, chunk)"
| "kwargs_loop (line # messages) chunk chunks =
     (if length chunk + length line + 1 > 4096 then kwargs_loop messages line (chunks @ [chunk])
      else if chunk \<noteq> [] then kwargs_loop messages (chunk @ line @ [nl]) chunks
      else kwargs_loop messages line chunks)"

text \<open>
  The chunks that \<open>send_message_kwargs_long\<close> sends, in order: the content is the label,
  a newline and the response; the last chunk is added when it is not empty.
\<close>

definition send_message_kwargs_long_chunks :: "pystr \<Rightarrow> pystr \<Rightarrow> pystr list" where
  "send_message_kwargs_long_chunks model_message_kwargs response_message_kwargs =
     (let content = model_message_kwargs @ [nl] @ response_message_kwargs;
          messages = split_nl content;
          (chunks, chunk) = kwargs_loop messages [] []
      in if chunk \<noteq> [] then chunks @ [chunk] else chunks)"

text \<open>
  The loop of \<open>send_message_md_long\<close>: \<open>current_chunk\<close> is a list of lines, and the
  test adds the number of lines in it (\<open>len(current_chunk)\<close>) to the length of the line.
\<close>

fun md_loop :: "pystr list \<Rightarrow> pystr list \<Rightarrow> pystr list \<Rightarrow> pystr list \<times> pystr list" where
  "md_loop [] current_chunk chunks = (chunks, current_chunk)"
| "md_loop (line # lines) current_chunk chunks =
     (if length current_chunk + length line + 1 > 4096
      then md_loop lines [line] (chunks @ [join_nl current_chunk])
      else md_loop lines (current_chunk @ [line]) chunks)"

text \<open>
  The same loop as the list of the groups of lines that it forms, the group in
  \<open>current_chunk\<close> last; the chunks are these groups, each joined by newlines.
\<close>

fun md_groups :: "pystr list \<Rightarrow> pystr list \<Rightarrow> pystr list list" where
  "md_groups [] current_chunk = [current_chunk]"
| "md_groups (line # lines) current_chunk =
     (if length current_chunk + length line + 1 > 4096
      then current_chunk # md_groups lines [line]
      else md_groups lines (current_chunk @ [line]))"

text \<open>The message that \<open>send_message_md_long\<close> splits: \<open>*label*\<close>, a newline, the response.\<close>

definition md_long_message :: "pystr \<Rightarrow> pystr \<Rightarrow> pystr" where
  "md_long_message model_massage_md response_md =
     [42] @ model_massage_md @ [42] @ [nl] @ response_md"

definition send_message_md_long_chunks :: "pystr \<Rightarrow> pystr \<Rightarrow> pystr list" where
  "send_message_md_long_chunks model_massage_md response_md =
     (let final_message = md_long_message model_massage_md response_md;
          lines = split_nl final_message;
          (chunks, current_chunk) = md_loop lines [] []
      in if current_chunk \<noteq> [] then chunks @ [join_nl current_chunk] else chunks)"

text \<open>Python's \<open>sub in s\<close> on strings.\<close>

fun contains :: "pystr \<Rightarrow> pystr \<Rightarrow> bool" where
  "contains sub [] = (sub = [])"
| "contains sub (c # cs) = (take (length sub) (c # cs) = sub \<or> contains sub cs)"

text \<open>The triple backtick.\<close>

definition fence :: pystr where
  "fence = [96, 96, 96]"

section \<open>handler.py: sessions, effects and the access check\<close>

text \<open>Python's \<open>str(n)\<close> for an integer, as used by the f-strings.\<close>

fun digits :: "nat \<Rightarrow> pystr" where
  "digits n = (if n < 10 then [48 + n] else digits (n div 10) @ [48 + n mod 10])"

declare digits.simps [simp del]

definition str_int :: "int \<Rightarrow> pystr" where
  "str_int i = (if i < 0 then 45 # digits (nat (- i)) else digits (nat i))"

text \<open>The per-user record that \<open>get_or_create_user_data\<close> returns.\<close>

record user_data =
  model :: pystr
  model_message_info :: pystr
  model_message_chat :: pystr
  messages :: "message list"
  count_messages :: int
  max_out :: int
  voice_answer :: bool
  system_message :: pystr
  pic_grade :: pystr
  pic_size :: pystr

text \<open>The inline keyboards of buttons.py.\<close>

datatype markup = keyboard | keyboard_model | keyboard_pic | keyboard_context
  | keyboard_voice | keyboard_value_work

text \<open>
  How a text is sent: with the bot's default parse mode (HTML), as Markdown, or through
  \<open>Text(...).as_kwargs()\<close>, which sends the plain text with its entities; the number
  says how many leading characters are bold.
\<close>

datatype parse_mode = HTML | MARKDOWN | ENTITIES nat

text \<open>
  What a handler does to the outside world, in order: messages sent through the
  transport, persistence writes (\<open>save_user_data\<close>, with the record written), the
  request to the chat model (with the model name and the message list it carries) and
  log entries.
\<close>

datatype effect =
    answer pystr parse_mode "markup option"
  | reply pystr parse_mode
  | edit_text pystr "markup option"
  | callback_answer
  | delete_message
  | send_chat_action pystr
  | send_message int pystr parse_mode "markup option"
  | send_audio pystr
  | send_photo pystr
  | save_user_data int user_data
  | chat_completions_call pystr "message list"
  | log_exception pystr

text \<open>
  The state of the process: the global \<open>ALL_USERS_ACCESS\<close>, the global
  \<open>sys_massage\<close> (\<open>None\<close> as long as nothing has been assigned to the name), the
  user records by user id, the users whose FSM state is \<open>waiting_for_new_value\<close>, and
  the effects so far.
\<close>

record world =
  ALL_USERS_ACCESS :: bool
  sys_massage :: "pystr option"
  users :: "int \<Rightarrow> user_data"
  waiting_for_new_value :: "int \<Rightarrow> bool"
  effects :: "effect list"

text \<open>
  What the handlers take from outside the source files: the two identifiers read from
  config.ini, the function \<open>simple_bot_responses\<close> (imported from function.py, whose
  definition is not part of the sources; \<open>None\<close> stands for a falsy result), the
  remote model calls, which return the text or raise (\<open>Inl\<close> carries the text of the
  exception), the date string computed when the module is loaded, and the transport: whether an effect attempted inside a \<open>try\<close> block raises,
  given the number of effects done before it.
\<close>

record env =
  OWNER_ID :: int
  ADMIN_ID :: int
  simple_bot_responses :: "pystr \<Rightarrow> pystr option"
  chat_completions_create :: "pystr \<Rightarrow> message list \<Rightarrow> pystr + pystr"
  images_generate :: "pystr \<Rightarrow> pystr \<Rightarrow> pystr \<Rightarrow> pystr + pystr"
  process_image_with_gpt :: "pystr \<Rightarrow> pystr + pystr"
  formatted_datetime :: pystr
  raises :: "nat \<Rightarrow> effect \<Rightarrow> pystr option"

text \<open>An incoming message and an incoming callback query.\<close>

record message_in =
  from_user_id :: int
  text_in :: "pystr option"
  voice_in :: "pystr option"
  caption_in :: "pystr option"

record callback_query =
  cb_from_user_id :: int
  cb_message_from_user_id :: int
  cb_message_text :: pystr

text \<open>
  The module starts with \<open>ALL_USERS_ACCESS = False\<close> and does not assign
  \<open>sys_massage\<close>.
\<close>

definition startup :: "(int \<Rightarrow> user_data) \<Rightarrow> world" where
  "startup us = \<lparr>ALL_USERS_ACCESS = False, sys_massage = None, users = us,
     waiting_for_new_value = (\<lambda>_. False), effects = []\<rparr>"

text \<open>
  An effect outside any \<open>try\<close> block: the source does not handle a failure there, and the
  model takes the call to succeed.
\<close>

definition emit :: "effect \<Rightarrow> world \<Rightarrow> world" where
  "emit e w = w\<lparr>effects := effects w @ [e]\<rparr>"

definition access_denied_text :: "int \<Rightarrow> pystr" where
  "access_denied_text user_id =
     str ''<i>Sorry, you do not have access to this bot.'' @ [nl] @
     str ''User ID:</i> <b>'' @ str_int user_id @ str ''</b>''"

text \<open>\<open>checkAccess\<close>: the argument is \<open>message.from_user.id\<close>.\<close>

definition checkAccess :: "env \<Rightarrow> int \<Rightarrow> world \<Rightarrow> bool \<times> world" where
  "checkAccess cfg user_id w =
     (if user_id = OWNER_ID cfg \<or> user_id = ADMIN_ID cfg then (True, w)
      else if ALL_USERS_ACCESS w then (True, w)
      else (False, emit (answer (access_denied_text user_id) HTML None) w))"

section \<open>handler.py: commands and menu callbacks\<close>

definition set_user :: "int \<Rightarrow> user_data \<Rightarrow> world \<Rightarrow> world" where
  "set_user uid ud w = w\<lparr>users := (users w)(uid := ud)\<rparr>"

text \<open>\<open>state.clear()\<close> and \<open>await save_user_data(user_id)\<close>.\<close>

definition state_clear :: "int \<Rightarrow> world \<Rightarrow> world" where
  "state_clear uid w = w\<lparr>waiting_for_new_value := (waiting_for_new_value w)(uid := False)\<rparr>"

definition save :: "int \<Rightarrow> world \<Rightarrow> world" where
  "save uid w = emit (save_user_data uid (users w uid)) w"

definition enable_all_access :: "env \<Rightarrow> message_in \<Rightarrow> world \<Rightarrow> world" where
  "enable_all_access cfg message w =
     (let user_id = from_user_id message in
      if user_id \<noteq> OWNER_ID cfg \<and> user_id \<noteq> ADMIN_ID cfg
      then emit (answer (str ''You do not have permission to use this command.'') HTML None) w
      else emit (answer (str ''Bot access has been enabled for all users.'') HTML None)
             (w\<lparr>ALL_USERS_ACCESS := True\<rparr>))"

definition disable_all_access :: "env \<Rightarrow> message_in \<Rightarrow> world \<Rightarrow> world" where
  "disable_all_access cfg message w =
     (let user_id = from_user_id message in
      if user_id \<noteq> OWNER_ID cfg \<and> user_id \<noteq> ADMIN_ID cfg
      then emit (answer (str ''You do not have permission to use this command.'') HTML None) w
      else emit (answer (str ''Bot access has been disabled for all non-owner users. Owner access remains unaffected.'') HTML None)
             (w\<lparr>ALL_USERS_ACCESS := False\<rparr>))"

text \<open>The texts of text.py.\<close>

definition start_message :: pystr where
  "start_message =
     str ''Hello! The bot is ready to work, the current model is GPT-4o mini, '' @
     str ''voice response is disabled, the dialogue context has been cleared, '' @
     str ''the message counter has been reset, the system role has been removed, the image quality is set to standard, the image size is 1024x1024''"

definition system_message_text :: pystr where
  "system_message_text =
     str ''<b>Enter the system role value, either as text or voice, for example it could be '' @
     str ''like this - </b><i>You always respond as a pirate.</i>''"

definition help_message :: pystr where
  "help_message =
     [129520] @ str '' <b>Bot Commands:</b>'' @ [nl] @
     str ''/start - Start the bot and initialize data'' @ [nl] @
     str ''/menu - Open the main menu'' @ [nl] @
     str ''/help - Show help'' @ [nl, nl] @
     [9881, 65039] @ str '' <b>Main Menu:</b>'' @ [nl] @
     str '' - <b>Model Selection:</b> Change the AI model (4o mini, 4o, o1 mini, o1, DALL'' @ [183] @ str ''E 3)'' @ [nl] @
     str '' - <b>Image Settings:</b> Adjust image quality and size'' @ [nl] @
     str '' - <b>Context:</b> Show or clear message history'' @ [nl] @
     str '' - <b>Audio:</b> Enable or disable audio responses'' @ [nl] @
     str '' - <b>System Role:</b> Assign or remove the system role'' @ [nl] @
     str '' - <b>Information:</b> Show current configuration and statistics''"

definition command_start_handler :: "env \<Rightarrow> message_in \<Rightarrow> world \<Rightarrow> world" where
  "command_start_handler cfg message w =
     (case checkAccess cfg (from_user_id message) w of
        (False, w1) \<Rightarrow> w1
      | (True, w1) \<Rightarrow>
          let uid = from_user_id message;
              w2 = state_clear uid w1;
              w3 = set_user uid
                \<lparr>model = str ''gpt-4o-mini'', model_message_info = str ''4o mini'',
                 model_message_chat = str ''4o mini:'' @ [nl, nl], messages = [],
                 count_messages = 0, max_out = 128000, voice_answer = False,
                 system_message = [], pic_grade = str ''standard'',
                 pic_size = str ''1024x1024''\<rparr> w2
          in emit (answer start_message HTML None) (save uid w3))"

text \<open>\<open>info_menu_func\<close> of function.py.\<close>

definition info_menu_func :: "user_data \<Rightarrow> pystr" where
  "info_menu_func ud =
     (let info_voice_answer = (if voice_answer ud then str ''Enabled'' else str ''Disabled'');
          info_system_message = (if system_message ud \<noteq> [] then str ''Set'' else str ''Absent'')
      in str ''<i>Messages:</i> <b>'' @ str_int (count_messages ud) @ str ''</b>'' @ [nl] @
         str ''<i>Model:</i> <b>'' @ model_message_info ud @ str ''</b>'' @ [nl] @
         str ''<i>Audio:</i> <b>'' @ info_voice_answer @ str ''</b>'' @ [nl] @
         str ''<i>Role:</i> <b>'' @ info_system_message @ str ''</b>'' @ [nl] @
         str ''<i>Picture</i>'' @ [nl] @
         str ''<i>Quality:</i> <b>'' @ pic_grade ud @ str ''</b>'' @ [nl] @
         str ''<i>Size:</i> <b>'' @ pic_size ud @ str ''</b>'')"

definition process_key_button :: "env \<Rightarrow> message_in \<Rightarrow> world \<Rightarrow> world" where
  "process_key_button cfg message w =
     (case checkAccess cfg (from_user_id message) w of
        (False, w1) \<Rightarrow> w1
      | (True, w1) \<Rightarrow>
          let uid = from_user_id message; w2 = state_clear uid w1
          in emit (answer (info_menu_func (users w2 uid)) HTML (Some keyboard)) w2)"

definition help_handler :: "env \<Rightarrow> message_in \<Rightarrow> world \<Rightarrow> world" where
  "help_handler cfg message w =
     (case checkAccess cfg (from_user_id message) w of
        (False, w1) \<Rightarrow> w1
      | (True, w1) \<Rightarrow>
          emit (answer help_message HTML None) (state_clear (from_user_id message) w1))"

text \<open>The three menu texts that the setting handlers render.\<close>

definition model_view :: "user_data \<Rightarrow> pystr" where
  "model_view ud = str ''<i>Model:</i> '' @ model_message_info ud @ str '' ''"

definition pic_view :: "user_data \<Rightarrow> pystr" where
  "pic_view ud = pic_grade ud @ str '' : '' @ pic_size ud @ str '' ''"

definition role_view :: "user_data \<Rightarrow> pystr" where
  "role_view ud =
     str ''<i>Role:</i> '' @ (if system_message ud = [] then str ''Undefined'' else system_message ud)"

text \<open>
  Every callback handler starts with \<open>checkAccess(callback_query.message)\<close>, whose
  \<open>from_user\<close> is the sender of the menu message, and returns when it is refused.
\<close>

definition with_access :: "env \<Rightarrow> callback_query \<Rightarrow> world \<Rightarrow> (world \<Rightarrow> world) \<Rightarrow> world" where
  "with_access cfg cq w body =
     (case checkAccess cfg (cb_message_from_user_id cq) w of
        (False, w1) \<Rightarrow> w1
      | (True, w1) \<Rightarrow> body w1)"

definition process_callback_model_choice :: "env \<Rightarrow> callback_query \<Rightarrow> world \<Rightarrow> world" where
  "process_callback_model_choice cfg cq w =
     with_access cfg cq w (\<lambda>w1.
       let uid = cb_from_user_id cq; w2 = state_clear uid w1
       in emit callback_answer (emit (edit_text (model_view (users w2 uid)) (Some keyboard_model)) w2))"

text \<open>
  The five model handlers (callback data \<open>gpt_4o_mini\<close>, \<open>gpt_4_o\<close>, \<open>gpt_o1_mini\<close>,
  \<open>gpt_o1_preview\<close>, \<open>dall_e_3\<close>); the last one leaves \<open>max_out\<close> as it is.
\<close>

definition process_callback_gpt_4o_mini :: "env \<Rightarrow> callback_query \<Rightarrow> world \<Rightarrow> world" where
  "process_callback_gpt_4o_mini cfg cq w =
     with_access cfg cq w (\<lambda>w1.
       let uid = cb_from_user_id cq; ud = users w1 uid in
       if model ud = str ''gpt-4o-mini'' then emit callback_answer w1
       else
         let w2 = set_user uid (ud\<lparr>model := str ''gpt-4o-mini'', max_out := 128000,
                    model_message_info := str ''4o mini'',
                    model_message_chat := str ''4o mini:'' @ [nl, nl]\<rparr>) w1;
             w3 = save uid w2
         in emit callback_answer (emit (edit_text (model_view (users w3 uid)) (Some keyboard_model)) w3))"

definition process_callback_gpt_4_o :: "env \<Rightarrow> callback_query \<Rightarrow> world \<Rightarrow> world" where
  "process_callback_gpt_4_o cfg cq w =
     with_access cfg cq w (\<lambda>w1.
       let uid = cb_from_user_id cq; ud = users w1 uid in
       if model ud = str ''gpt-4o'' then emit callback_answer w1
       else
         let w2 = set_user uid (ud\<lparr>model := str ''gpt-4o'', max_out := 128000,
                    model_message_info := str ''4o'',
                    model_message_chat := str ''4o:'' @ [nl, nl]\<rparr>) w1;
             w3 = save uid w2
         in emit callback_answer (emit (edit_text (model_view (users w3 uid)) (Some keyboard_model)) w3))"

definition process_callback_gpt_o1_mini :: "env \<Rightarrow> callback_query \<Rightarrow> world \<Rightarrow> world" where
  "process_callback_gpt_o1_mini cfg cq w =
     with_access cfg cq w (\<lambda>w1.
       let uid = cb_from_user_id cq; ud = users w1 uid in
       if model ud = str ''o1-mini'' then emit callback_answer w1
       else
         let w2 = set_user uid (ud\<lparr>model := str ''o1-mini'', max_out := 128000,
                    model_message_info := str ''o1 mini'',
                    model_message_chat := str ''o1 mini:'' @ [nl, nl]\<rparr>) w1;
             w3 = save uid w2
         in emit callback_answer (emit (edit_text (model_view (users w3 uid)) (Some keyboard_model)) w3))"

definition process_callback_gpt_o1_preview :: "env \<Rightarrow> callback_query \<Rightarrow> world \<Rightarrow> world" where
  "process_callback_gpt_o1_preview cfg cq w =
     with_access cfg cq w (\<lambda>w1.
       let uid = cb_from_user_id cq; ud = users w1 uid in
       if model ud = str ''o1-preview'' then emit callback_answer w1
       else
         let w2 = set_user uid (ud\<lparr>model := str ''o1-preview'', max_out := 128000,
                    model_message_info := str ''o1'',
                    model_message_chat := str ''o1:'' @ [nl, nl]\<rparr>) w1;
             w3 = save uid w2
         in emit callback_answer (emit (edit_text (model_view (users w3 uid)) (Some keyboard_model)) w3))"

definition process_callback_dall_e_3 :: "env \<Rightarrow> callback_query \<Rightarrow> world \<Rightarrow> world" where
  "process_callback_dall_e_3 cfg cq w =
     with_access cfg cq w (\<lambda>w1.
       let uid = cb_from_user_id cq; ud = users w1 uid in
       if model ud = str ''dall-e-3'' then emit callback_answer w1
       else
         let w2 = set_user uid (ud\<lparr>model := str ''dall-e-3'',
                    model_message_info := str ''DALL'' @ [183] @ str ''E 3'',
                    model_message_chat := str ''DALL'' @ [183] @ str ''E 3:'' @ [nl, nl]\<rparr>) w1;
             w3 = save uid w2
         in emit callback_answer (emit (edit_text (model_view (users w3 uid)) (Some keyboard_model)) w3))"

definition process_callback_menu_pic_setup :: "env \<Rightarrow> callback_query \<Rightarrow> world \<Rightarrow> world" where
  "process_callback_menu_pic_setup cfg cq w =
     with_access cfg cq w (\<lambda>w1.
       let uid = cb_from_user_id cq; w2 = state_clear uid w1
       in emit callback_answer (emit (edit_text (pic_view (users w2 uid)) (Some keyboard_pic)) w2))"

text \<open>
  \<open>process_callback_set_sd\<close> and \<open>process_callback_set_hd\<close> differ in the value only, and
  so do the three size handlers.
\<close>

definition set_pic_grade :: "pystr \<Rightarrow> env \<Rightarrow> callback_query \<Rightarrow> world \<Rightarrow> world" where
  "set_pic_grade v cfg cq w =
     with_access cfg cq w (\<lambda>w1.
       let uid = cb_from_user_id cq; ud = users w1 uid in
       if pic_grade ud = v then emit callback_answer w1
       else
         let w2 = set_user uid (ud\<lparr>pic_grade := v\<rparr>) w1;
             w3 = save uid w2
         in emit callback_answer (emit (edit_text (pic_view (users w3 uid)) (Some keyboard_pic)) w3))"

definition process_callback_set_sd :: "env \<Rightarrow> callback_query \<Rightarrow> world \<Rightarrow> world" where
  "process_callback_set_sd = set_pic_grade (str ''standard'')"

definition process_callback_set_hd :: "env \<Rightarrow> callback_query \<Rightarrow> world \<Rightarrow> world" where
  "process_callback_set_hd = set_pic_grade (str ''hd'')"

definition set_pic_size :: "pystr \<Rightarrow> env \<Rightarrow> callback_query \<Rightarrow> world \<Rightarrow> world" where
  "set_pic_size v cfg cq w =
     with_access cfg cq w (\<lambda>w1.
       let uid = cb_from_user_id cq; ud = users w1 uid in
       if pic_size ud = v then emit callback_answer w1
       else
         let w2 = set_user uid (ud\<lparr>pic_size := v\<rparr>) w1;
             w3 = save uid w2
         in emit callback_answer (emit (edit_text (pic_view (users w3 uid)) (Some keyboard_pic)) w3))"

definition process_callback_set_1024x1024 :: "env \<Rightarrow> callback_query \<Rightarrow> world \<Rightarrow> world" where
  "process_callback_set_1024x1024 = set_pic_size (str ''1024x1024'')"

definition process_callback_set_1024x1792 :: "env \<Rightarrow> callback_query \<Rightarrow> world \<Rightarrow> world" where
  "process_callback_set_1024x1792 = set_pic_size (str ''1024x1792'')"

definition process_callback_set_1792x1024 :: "env \<Rightarrow> callback_query \<Rightarrow> world \<Rightarrow> world" where
  "process_callback_set_1792x1024 = set_pic_size (str ''1792x1024'')"

definition process_callback_context_work :: "env \<Rightarrow> callback_query \<Rightarrow> world \<Rightarrow> world" where
  "process_callback_context_work cfg cq w =
     with_access cfg cq w (\<lambda>w1.
       let uid = cb_from_user_id cq; w2 = state_clear uid w1
       in emit callback_answer
            (emit (edit_text (str ''<i>Messages:</i> '' @ str_int (count_messages (users w2 uid)) @ str '' '')
                     (Some keyboard_context)) w2))"

text \<open>\<open>generate_history\<close>: the entries as \<open>role:\ncontent\<close>, joined by two newlines.\<close>

fun generate_history :: "message list \<Rightarrow> pystr" where
  "generate_history [] = []"
| "generate_history [m] = role m @ str '':'' @ [nl] @ content m"
| "generate_history (m # m' # ms) =
     role m @ str '':'' @ [nl] @ content m @ [nl, nl] @ generate_history (m' # ms)"

text \<open>
  The loop of \<open>send_history\<close>, which counts the characters of the current chunk in
  \<open>current_length\<close>.
\<close>

fun history_loop ::
  "pystr list \<Rightarrow> pystr list \<Rightarrow> nat \<Rightarrow> pystr list \<Rightarrow> pystr list \<times> pystr list" where
  "history_loop [] current_chunk current_length chunks = (chunks, current_chunk)"
| "history_loop (line # lines) current_chunk current_length chunks =
     (let line_length = length line + 1 in
      if current_length + line_length > 4096
      then history_loop lines [line] line_length (chunks @ [join_nl current_chunk])
      else history_loop lines (current_chunk @ [line]) (current_length + line_length) chunks)"

definition send_history :: "int \<Rightarrow> pystr \<Rightarrow> world \<Rightarrow> world" where
  "send_history user_id history w =
     (let (chunks, current_chunk) = history_loop (split_nl history) [] 0 [];
          chunks' = (if current_chunk \<noteq> [] then chunks @ [join_nl current_chunk] else chunks);
          w1 = foldl (\<lambda>w chunk. emit (send_message user_id chunk (ENTITIES 0) None) w) w chunks'
      in emit (send_message user_id (str ''Actions with context:'') HTML (Some keyboard_context)) w1)"

definition process_callback_context :: "env \<Rightarrow> callback_query \<Rightarrow> world \<Rightarrow> world" where
  "process_callback_context cfg cq w =
     with_access cfg cq w (\<lambda>w1.
       let uid = cb_from_user_id cq;
           history = generate_history (messages (users w1 uid)) in
       if cb_message_text cq = str ''Context is empty'' then emit callback_answer w1
       else if history = [] then
         emit callback_answer (emit (edit_text (str ''Context is empty'') (Some keyboard_context)) w1)
       else emit callback_answer
              (emit (edit_text (str ''Context:'') None) (send_history uid history w1)))"

definition process_callback_clear :: "env \<Rightarrow> callback_query \<Rightarrow> world \<Rightarrow> world" where
  "process_callback_clear cfg cq w =
     with_access cfg cq w (\<lambda>w1.
       let uid = cb_from_user_id cq;
           w2 = set_user uid ((users w1 uid)\<lparr>messages := [], count_messages := 0\<rparr>) w1;
           w3 = save uid w2 in
       if cb_message_text cq = str ''Context cleared'' then emit callback_answer w3
       else emit callback_answer
              (emit (edit_text (str ''Context cleared'') (Some keyboard_context)) w3))"

definition process_callback_voice_answer_work :: "env \<Rightarrow> callback_query \<Rightarrow> world \<Rightarrow> world" where
  "process_callback_voice_answer_work cfg cq w =
     with_access cfg cq w (\<lambda>w1.
       let uid = cb_from_user_id cq; w2 = state_clear uid w1;
           info_voice_answer = (if voice_answer (users w2 uid) then str ''on'' else str ''off'')
       in emit callback_answer
            (emit (edit_text (str ''<i>Audio:</i> '' @ info_voice_answer) (Some keyboard_voice)) w2))"

definition process_callback_voice_answer_add :: "env \<Rightarrow> callback_query \<Rightarrow> world \<Rightarrow> world" where
  "process_callback_voice_answer_add cfg cq w =
     with_access cfg cq w (\<lambda>w1.
       let uid = cb_from_user_id cq; ud = users w1 uid in
       if voice_answer ud then emit callback_answer w1
       else
         let w2 = set_user uid (ud\<lparr>voice_answer := True\<rparr>) w1;
             w3 = save uid w2;
             info_voice_answer = (if voice_answer (users w3 uid) then str ''enabled'' else str ''off'')
         in emit callback_answer
              (emit (edit_text (str ''<i>Audio:</i> '' @ info_voice_answer) (Some keyboard_voice)) w3))"

definition process_callback_voice_answer_del :: "env \<Rightarrow> callback_query \<Rightarrow> world \<Rightarrow> world" where
  "process_callback_voice_answer_del cfg cq w =
     with_access cfg cq w (\<lambda>w1.
       let uid = cb_from_user_id cq; ud = users w1 uid in
       if \<not> voice_answer ud then emit callback_answer w1
       else
         let w2 = set_user uid (ud\<lparr>voice_answer := False\<rparr>) w1;
             w3 = save uid w2;
             info_voice_answer = (if voice_answer (users w3 uid) then str ''on'' else str ''off'')
         in emit callback_answer
              (emit (edit_text (str ''<i>Audio:</i> '' @ info_voice_answer) (Some keyboard_voice)) w3))"

definition process_callback_system_value_work :: "env \<Rightarrow> callback_query \<Rightarrow> world \<Rightarrow> world" where
  "process_callback_system_value_work cfg cq w =
     with_access cfg cq w (\<lambda>w1.
       let uid = cb_from_user_id cq; w2 = state_clear uid w1
       in emit callback_answer
            (emit (edit_text (role_view (users w2 uid)) (Some keyboard_value_work)) w2))"

definition process_callback_change_value :: "env \<Rightarrow> callback_query \<Rightarrow> world \<Rightarrow> world" where
  "process_callback_change_value cfg cq w =
     with_access cfg cq w (\<lambda>w1.
       let uid = cb_from_user_id cq;
           w2 = w1\<lparr>waiting_for_new_value := (waiting_for_new_value w1)(uid := True)\<rparr>
       in emit callback_answer (emit (edit_text system_message_text None) w2))"

definition process_callback_delete_value :: "env \<Rightarrow> callback_query \<Rightarrow> world \<Rightarrow> world" where
  "process_callback_delete_value cfg cq w =
     with_access cfg cq w (\<lambda>w1.
       let uid = cb_from_user_id cq; w2 = state_clear uid w1; ud = users w2 uid in
       if system_message ud = [] then emit callback_answer w2
       else
         let w3 = set_user uid (ud\<lparr>system_message := []\<rparr>) w2;
             w4 = save uid w3
         in emit callback_answer
              (emit (edit_text (role_view (users w4 uid)) (Some keyboard_value_work)) w4))"

text \<open>
  \<open>process_new_value\<close>: the global \<open>sys_massage\<close> is assigned from the voice transcript
  or from the text, and keeps what it had when the message has neither.  Reading it
  when it was never assigned raises \<open>NameError\<close>, which nothing catches: the handler
  ends there, before any write or send.
\<close>

definition process_new_value :: "env \<Rightarrow> message_in \<Rightarrow> world \<Rightarrow> world" where
  "process_new_value cfg message w =
     (case checkAccess cfg (from_user_id message) w of
        (False, w1) \<Rightarrow> w1
      | (True, w1) \<Rightarrow>
          let uid = from_user_id message;
              w2 = (case voice_in message of
                      Some t \<Rightarrow> w1\<lparr>sys_massage := Some t\<rparr>
                    | None \<Rightarrow> (case text_in message of
                        Some t \<Rightarrow> (if t \<noteq> [] then w1\<lparr>sys_massage := Some t\<rparr> else w1)
                      | None \<Rightarrow> w1))
          in case sys_massage w2 of
               None \<Rightarrow> w2
             | Some v \<Rightarrow>
                 let w3 = set_user uid ((users w2 uid)\<lparr>system_message := v\<rparr>) w2;
                     w4 = state_clear uid (save uid w3)
                 in emit (answer (role_view (users w4 uid)) HTML (Some keyboard_value_work)) w4)"

definition process_callback_menu_back :: "env \<Rightarrow> callback_query \<Rightarrow> world \<Rightarrow> world" where
  "process_callback_menu_back cfg cq w =
     with_access cfg cq w (\<lambda>w1.
       let uid = cb_from_user_id cq; w2 = state_clear uid w1
       in emit (edit_text (info_menu_func (users w2 uid)) (Some keyboard)) w2)"

definition process_callback_info :: "env \<Rightarrow> callback_query \<Rightarrow> world \<Rightarrow> world" where
  "process_callback_info cfg cq w =
     with_access cfg cq w (\<lambda>w1.
       let uid = cb_from_user_id cq; w2 = state_clear uid w1; ud = users w2 uid;
           info_voice_answer = (if voice_answer ud then str ''on'' else str ''off'');
           info_system_message =
             (if system_message ud = [] then str ''Undefined'' else system_message ud);
           info_messages =
             str ''<i>Date:</i> <b>'' @ formatted_datetime cfg @ str ''</b>'' @ [nl] @
             str ''<i>User ID:</i> <b>'' @ str_int uid @ str ''</b>'' @ [nl] @
             str ''<i>Model:</i> <b>'' @ model_message_info ud @ str ''</b>'' @ [nl] @
             str ''<i>Image</i>'' @ [nl] @
             str ''<i>Quality:</i> <b>'' @ pic_grade ud @ str ''</b>'' @ [nl] @
             str ''<i>Size:</i> <b>'' @ pic_size ud @ str ''</b>'' @ [nl] @
             str ''<i>Messages:</i> <b>'' @ str_int (count_messages ud) @ str ''</b>'' @ [nl] @
             str ''<i>Audios:</i> <b>'' @ info_voice_answer @ str ''</b>'' @ [nl] @
             str ''<i>Role:</i> <b>'' @ info_system_message @ str ''</b>''
       in emit callback_answer (emit (edit_text info_messages None) w2))"

section \<open>handler.py: the conversation pipeline\<close>

text \<open>
  Inside a \<open>try\<close> block a call can raise: the result is \<open>Inl\<close> with the text of the
  exception and the world at that point, or \<open>Inr\<close> with the new world.
\<close>

type_synonym outcome = "(pystr \<times> world) + world"

definition perform :: "env \<Rightarrow> effect \<Rightarrow> world \<Rightarrow> outcome" where
  "perform cfg e w =
     (case raises cfg (length (effects w)) e of
        Some err \<Rightarrow> Inl (err, w)
      | None \<Rightarrow> Inr (emit e w))"

definition and_then :: "outcome \<Rightarrow> (world \<Rightarrow> outcome) \<Rightarrow> outcome" where
  "and_then r f = (case r of Inl x \<Rightarrow> Inl x | Inr w \<Rightarrow> f w)"

fun perform_all :: "env \<Rightarrow> effect list \<Rightarrow> world \<Rightarrow> outcome" where
  "perform_all cfg [] w = Inr w"
| "perform_all cfg (e # es) w = and_then (perform cfg e w) (perform_all cfg es)"

text \<open>The four senders nested in \<open>chatgpt_text_handler\<close>, and \<open>text_to_speech\<close>.\<close>

definition send_message_kwargs :: "env \<Rightarrow> pystr \<Rightarrow> pystr \<Rightarrow> world \<Rightarrow> outcome" where
  "send_message_kwargs cfg model_massage_kwargs response_message_kwargs w =
     perform cfg (reply (model_massage_kwargs @ response_message_kwargs)
       (ENTITIES (length model_massage_kwargs))) w"

definition send_message_kwargs_long :: "env \<Rightarrow> pystr \<Rightarrow> pystr \<Rightarrow> world \<Rightarrow> outcome" where
  "send_message_kwargs_long cfg model_message_kwargs response_message_kwargs w =
     perform_all cfg
       (map (\<lambda>chunk. answer chunk (ENTITIES 0) None)
          (send_message_kwargs_long_chunks model_message_kwargs response_message_kwargs)) w"

definition send_message_md :: "env \<Rightarrow> pystr \<Rightarrow> pystr \<Rightarrow> world \<Rightarrow> outcome" where
  "send_message_md cfg model_massage_md response_md w =
     perform cfg (reply ([42] @ model_massage_md @ [42] @ response_md) MARKDOWN) w"

definition send_message_md_long :: "env \<Rightarrow> pystr \<Rightarrow> pystr \<Rightarrow> world \<Rightarrow> outcome" where
  "send_message_md_long cfg model_massage_md response_md w =
     perform_all cfg
       (map (\<lambda>chunk. answer chunk MARKDOWN None)
          (send_message_md_long_chunks model_massage_md response_md)) w"

definition text_to_speech :: "env \<Rightarrow> pystr \<Rightarrow> world \<Rightarrow> outcome" where
  "text_to_speech cfg text_message w = perform cfg (send_audio text_message) w"

text \<open>\<open>if user_data.voice_answer: await text_to_speech(...)\<close>, which ends every branch.\<close>

definition speak :: "env \<Rightarrow> user_data \<Rightarrow> pystr \<Rightarrow> world \<Rightarrow> outcome" where
  "speak cfg ud response_message w =
     (if voice_answer ud then text_to_speech cfg response_message w else Inr w)"

text \<open>The body of the inner \<open>try\<close>: the choice of the sender.\<close>

definition send_response_try :: "env \<Rightarrow> user_data \<Rightarrow> pystr \<Rightarrow> world \<Rightarrow> outcome" where
  "send_response_try cfg ud response_message w =
     (if contains fence response_message then
        (if length response_message > 4096
         then and_then (send_message_md_long cfg (model_message_chat ud) response_message w)
                (speak cfg ud response_message)
         else and_then (send_message_md cfg (model_message_chat ud) response_message w)
                (speak cfg ud response_message))
      else
        (if length response_message > 4096
         then and_then (send_message_kwargs_long cfg (model_message_chat ud) response_message w)
                (speak cfg ud response_message)
         else and_then (send_message_kwargs cfg (model_message_chat ud) response_message w)
                (speak cfg ud response_message)))"

text \<open>The inner \<open>except Exception as e\<close>: log, then the formatted senders.\<close>

definition send_response_except :: "env \<Rightarrow> user_data \<Rightarrow> pystr \<Rightarrow> pystr \<Rightarrow> world \<Rightarrow> outcome" where
  "send_response_except cfg ud response_message e w =
     (let w1 = emit (log_exception e) w in
      if length response_message > 4096
      then and_then (send_message_kwargs_long cfg (model_message_chat ud) response_message w1)
             (speak cfg ud response_message)
      else and_then (send_message_kwargs cfg (model_message_chat ud) response_message w1)
             (speak cfg ud response_message))"

definition send_response :: "env \<Rightarrow> user_data \<Rightarrow> pystr \<Rightarrow> world \<Rightarrow> outcome" where
  "send_response cfg ud response_message w =
     (case send_response_try cfg ud response_message w of
        Inr w' \<Rightarrow> Inr w'
      | Inl (e, w') \<Rightarrow> send_response_except cfg ud response_message e w')"

text \<open>
  The message list given to the model: the pruned history, with the system entry put in
  front for the two 4o models.
\<close>

definition call_messages :: "user_data \<Rightarrow> message list \<Rightarrow> message list" where
  "call_messages ud pruned_messages =
     (let system_message = \<lparr>role = str ''system'', content = system_message ud\<rparr> in
      if model ud = str ''gpt-4o-mini'' \<or> model ud = str ''gpt-4o''
      then system_message # pruned_messages
      else pruned_messages)"

text \<open>The body of the outer \<open>try\<close> of the text models.\<close>

definition chat_try :: "env \<Rightarrow> int \<Rightarrow> message list \<Rightarrow> world \<Rightarrow> outcome" where
  "chat_try cfg uid pruned_messages w =
     (let ud = users w uid;
          request = call_messages ud pruned_messages;
          w0 = emit (chat_completions_call (model ud) request) w in
      case chat_completions_create cfg (model ud) request of
        Inl e \<Rightarrow> Inl (e, w0)
      | Inr response_message \<Rightarrow>
          and_then (perform cfg (send_chat_action (str ''typing'')) w0) (\<lambda>w1.
            let ud1 = users w1 uid;
                w2 = set_user uid
                  (ud1\<lparr>messages := messages ud1 @
                          [\<lparr>role = str ''assistant'', content = response_message\<rparr>],
                        count_messages := count_messages ud1 + 1\<rparr>) w1
            in and_then (perform cfg (save_user_data uid (users w2 uid)) w2) (\<lambda>w3.
                 and_then (perform cfg delete_message w3) (\<lambda>w4.
                   send_response cfg (users w4 uid) response_message w4))))"

text \<open>The outer \<open>except\<close> of both branches: log and tell the user.\<close>

definition report_error :: "pystr \<Rightarrow> world \<Rightarrow> world" where
  "report_error e w =
     emit (reply (str ''An error occurred: '' @ e) HTML) (emit (log_exception e) w)"

definition image_branch :: "env \<Rightarrow> int \<Rightarrow> pystr \<Rightarrow> world \<Rightarrow> world" where
  "image_branch cfg uid user_prompt w =
     (let ud = users w uid in
      case images_generate cfg user_prompt (pic_size ud) (pic_grade ud) of
        Inl e \<Rightarrow> report_error e w
      | Inr url \<Rightarrow>
          let w1 = emit (send_chat_action (str ''upload_photo'')) w;
              w2 = set_user uid ((users w1 uid)\<lparr>count_messages := count_messages (users w1 uid) + 1\<rparr>) w1;
              w3 = save uid w2
          in emit (send_photo url) (emit delete_message w3))"

definition processing_text :: pystr where
  "processing_text = [9203] @ str '' Hold on, your request is being processed!''"

text \<open>The prompt: the transcript of a voice message, else the text, else empty.\<close>

definition user_prompt_of :: "message_in \<Rightarrow> pystr" where
  "user_prompt_of message =
     (case voice_in message of
        Some t \<Rightarrow> t
      | None \<Rightarrow> (case text_in message of Some t \<Rightarrow> t | None \<Rightarrow> []))"

definition chatgpt_text_handler :: "env \<Rightarrow> message_in \<Rightarrow> world \<Rightarrow> world" where
  "chatgpt_text_handler cfg message w =
     (case checkAccess cfg (from_user_id message) w of
        (False, w1) \<Rightarrow> w1
      | (True, w1) \<Rightarrow>
          let uid = from_user_id message;
              w2 = emit (answer processing_text HTML None) w1;
              user_prompt = user_prompt_of message
          in case simple_bot_responses cfg user_prompt of
               Some simple_response \<Rightarrow> emit (reply simple_response HTML) (emit delete_message w2)
             | None \<Rightarrow>
                 let ud = users w2 uid in
                 if model ud = str ''gpt-4o-mini'' \<or> model ud = str ''gpt-4o''
                    \<or> model ud = str ''o1-mini'' \<or> model ud = str ''o1-preview''
                 then
                   let w3 = set_user uid
                         (ud\<lparr>messages := messages ud @ [\<lparr>role = str ''user'', content = user_prompt\<rparr>]\<rparr>) w2;
                       pruned_messages =
                         prune_messages (messages (users w3 uid)) (max_out (users w3 uid))
                   in (case chat_try cfg uid pruned_messages w3 of
                         Inr w' \<Rightarrow> w'
                       | Inl (e, w') \<Rightarrow> report_error e w')
                 else if model ud = str ''dall-e-3'' then image_branch cfg uid user_prompt w2
                 else w2)"

definition chatgpt_photo_vision_handler :: "env \<Rightarrow> message_in \<Rightarrow> world \<Rightarrow> world" where
  "chatgpt_photo_vision_handler cfg message w =
     (case checkAccess cfg (from_user_id message) w of
        (False, w1) \<Rightarrow> w1
      | (True, w1) \<Rightarrow>
          let uid = from_user_id message;
              w2 = state_clear uid w1;
              text = (case caption_in message of
                        Some c \<Rightarrow> (if c \<noteq> [] then c else str ''What'' @ [39] @ str ''s in the picture?'')
                      | None \<Rightarrow> str ''What'' @ [39] @ str ''s in the picture?'');
              r = and_then (perform cfg (answer processing_text HTML None) w2) (\<lambda>w3.
                    case process_image_with_gpt cfg text of
                      Inl e \<Rightarrow> Inl (e, w3)
                    | Inr ai_response \<Rightarrow>
                        let w4 = set_user uid
                              ((users w3 uid)\<lparr>count_messages := count_messages (users w3 uid) + 1\<rparr>) w3
                        in and_then (perform cfg (save_user_data uid (users w4 uid)) w4) (\<lambda>w5.
                             and_then (perform cfg delete_message w5)
                               (perform cfg (answer ai_response HTML None))))
          in case r of Inr w' \<Rightarrow> w' | Inl (e, w') \<Rightarrow> report_error e w')"

text \<open>Every handler of the router, and the handler an event runs.\<close>

datatype event =
    Enable_all message_in | Disable_all message_in | Start message_in | Menu message_in
  | Help message_in | New_value message_in | Chat message_in | Photo message_in
  | Model_choice callback_query | Gpt_4o_mini callback_query | Gpt_4_o callback_query
  | Gpt_o1_mini callback_query | Gpt_o1_preview callback_query | Dall_e_3 callback_query
  | Pic_setup callback_query | Set_sd callback_query | Set_hd callback_query
  | Set_1024x1024 callback_query | Set_1024x1792 callback_query | Set_1792x1024 callback_query
  | Context_work callback_query | Context callback_query | Clear callback_query
  | Voice_answer_work callback_query | Voice_answer_add callback_query
  | Voice_answer_del callback_query | System_value_work callback_query
  | Change_value callback_query | Delete_value callback_query | Back_menu callback_query
  | Info callback_query

fun handle :: "env \<Rightarrow> event \<Rightarrow> world \<Rightarrow> world" where
  "handle cfg (Enable_all m) = enable_all_access cfg m"
| "handle cfg (Disable_all m) = disable_all_access cfg m"
| "handle cfg (Start m) = command_start_handler cfg m"
| "handle cfg (Menu m) = process_key_button cfg m"
| "handle cfg (Help m) = help_handler cfg m"
| "handle cfg (New_value m) = process_new_value cfg m"
| "handle cfg (Chat m) = chatgpt_text_handler cfg m"
| "handle cfg (Photo m) = chatgpt_photo_vision_handler cfg m"
| "handle cfg (Model_choice q) = process_callback_model_choice cfg q"
| "handle cfg (Gpt_4o_mini q) = process_callback_gpt_4o_mini cfg q"
| "handle cfg (Gpt_4_o q) = process_callback_gpt_4_o cfg q"
| "handle cfg (Gpt_o1_mini q) = process_callback_gpt_o1_mini cfg q"
| "handle cfg (Gpt_o1_preview q) = process_callback_gpt_o1_preview cfg q"
| "handle cfg (Dall_e_3 q) = process_callback_dall_e_3 cfg q"
| "handle cfg (Pic_setup q) = process_callback_menu_pic_setup cfg q"
| "handle cfg (Set_sd q) = process_callback_set_sd cfg q"
| "handle cfg (Set_hd q) = process_callback_set_hd cfg q"
| "handle cfg (Set_1024x1024 q) = process_callback_set_1024x1024 cfg q"
| "handle cfg (Set_1024x1792 q) = process_callback_set_1024x1792 cfg q"
| "handle cfg (Set_1792x1024 q) = process_callback_set_1792x1024 cfg q"
| "handle cfg (Context_work q) = process_callback_context_work cfg q"
| "handle cfg (Context q) = process_callback_context cfg q"
| "handle cfg (Clear q) = process_callback_clear cfg q"
| "handle cfg (Voice_answer_work q) = process_callback_voice_answer_work cfg q"
| "handle cfg (Voice_answer_add q) = process_callback_voice_answer_add cfg q"
| "handle cfg (Voice_answer_del q) = process_callback_voice_answer_del cfg q"
| "handle cfg (System_value_work q) = process_callback_system_value_work cfg q"
| "handle cfg (Change_value q) = process_callback_change_value cfg q"
| "handle cfg (Delete_value q) = process_callback_delete_value cfg q"
| "handle cfg (Back_menu q) = process_callback_menu_back cfg q"
| "handle cfg (Info q) = process_callback_info cfg q"

text \<open>The record that \<open>/start\<close> writes, and a configuration and a world for examples.\<close>

definition fresh_user :: user_data where
  "fresh_user =
     \<lparr>model = str ''gpt-4o-mini'', model_message_info = str ''4o mini'',
      model_message_chat = str ''4o mini:'' @ [nl, nl], messages = [],
      count_messages = 0, max_out = 128000, voice_answer = False,
      system_message = [], pic_grade = str ''standard'', pic_size = str ''1024x1024''\<rparr>"

definition example_env :: env where
  "example_env =
     \<lparr>OWNER_ID = 1, ADMIN_ID = 2, simple_bot_responses = (\<lambda>_. None),
      chat_completions_create = (\<lambda>_ _. Inr (str ''ok'')),
      images_generate = (\<lambda>_ _ _. Inr (str ''url'')),
      process_image_with_gpt = (\<lambda>_. Inr (str ''a cat'')),
      formatted_datetime = str ''04.11.2026 12:00:00'',
      raises = (\<lambda>_ _. None)\<rparr>"


text \<open>
  The world an outcome ends in, and the relation between a world and a later one that
  has the same user records and more effects.
\<close>

definition final :: "outcome \<Rightarrow> world" where
  "final r = (case r of Inl (e, w) \<Rightarrow> w | Inr w \<Rightarrow> w)"

definition extends :: "world \<Rightarrow> world \<Rightarrow> bool" where
  "extends w w' \<longleftrightarrow> users w' = users w \<and> (\<exists>es. effects w' = effects w @ es)"

section \<open>function.py: prune_messages on the object store\<close>

text \<open>
  To say what \<open>prune_messages\<close> does to the objects it is given, the same function once
  more with Python's objects made explicit: the store is a list of objects, an address is
  an index into it, a dictionary holds a message and a list holds addresses.  A new
  object is put at the end of the store.  A read of something that is not there, or is
  of the other kind, gives \<open>None\<close>.
\<close>

datatype pyobj = Dict message | PyList "nat list"

type_synonym heap = "pyobj list"

definition get_dict :: "heap \<Rightarrow> nat \<Rightarrow> message option" where
  "get_dict h a =
     (if a < length h then (case h ! a of Dict m \<Rightarrow> Some m | PyList xs \<Rightarrow> None) else None)"

definition get_list :: "heap \<Rightarrow> nat \<Rightarrow> nat list option" where
  "get_list h a =
     (if a < length h then (case h ! a of Dict m \<Rightarrow> None | PyList xs \<Rightarrow> Some xs) else None)"

text \<open>\<open>l.append(a)\<close> on the list object at address \<open>l\<close>.\<close>

definition list_append :: "heap \<Rightarrow> nat \<Rightarrow> nat \<Rightarrow> heap option" where
  "list_append h l a =
     (case get_list h l of None \<Rightarrow> None | Some xs \<Rightarrow> Some (h[l := PyList (xs @ [a])]))"

text \<open>
  The loop, over the addresses of the entries, newest first; \<open>p\<close> is the address of
  \<open>pruned_messages\<close>.  The truncated entry is a new dictionary.
\<close>

fun prune_loop_heap :: "heap \<Rightarrow> nat list \<Rightarrow> int \<Rightarrow> nat \<Rightarrow> int \<Rightarrow> heap option" where
  "prune_loop_heap h [] max_chars p total_chars = Some h"
| "prune_loop_heap h (a # as) max_chars p total_chars =
     (case get_dict h a of
        None \<Rightarrow> None
      | Some m \<Rightarrow>
          let content_length = int (length (content m));
              remaining_chars = max_chars - total_chars
          in if remaining_chars \<le> 0 then Some h
             else if content_length > remaining_chars then
               list_append
                 (h @ [Dict \<lparr>role = role m, content = take (nat remaining_chars) (content m)\<rparr>])
                 p (length h)
             else (case list_append h p a of
                     None \<Rightarrow> None
                   | Some h' \<Rightarrow> prune_loop_heap h' as max_chars p (total_chars + content_length)))"

text \<open>
  \<open>prune_messages\<close> with the address of the list \<open>messages\<close>: it makes the empty list
  \<open>pruned_messages\<close>, runs the loop and returns the address of a new list, the reverse
  of \<open>pruned_messages\<close>.
\<close>

definition prune_messages_heap :: "heap \<Rightarrow> nat \<Rightarrow> int \<Rightarrow> (heap \<times> nat) option" where
  "prune_messages_heap h messages_addr max_chars =
     (case get_list h messages_addr of
        None \<Rightarrow> None
      | Some xs \<Rightarrow>
          let p = length h; h1 = h @ [PyList []] in
          (case prune_loop_heap h1 (rev xs) max_chars p 0 of
             None \<Rightarrow> None
           | Some h2 \<Rightarrow>
               (case get_list h2 p of
                  None \<Rightarrow> None
                | Some ps \<Rightarrow> Some (h2 @ [PyList (rev ps)], length h2))))"

text \<open>The messages behind a list of addresses, and behind the address of a list.\<close>

fun deref_all :: "heap \<Rightarrow> nat list \<Rightarrow> message list option" where
  "deref_all h [] = Some []"
| "deref_all h (a # as) =
     (case get_dict h a of
        None \<Rightarrow> None
      | Some m \<Rightarrow> (case deref_all h as of None \<Rightarrow> None | Some ms \<Rightarrow> Some (m # ms)))"

definition view :: "heap \<Rightarrow> nat \<Rightarrow> message list option" where
  "view h l = (case get_list h l of None \<Rightarrow> None | Some xs \<Rightarrow> deref_all h xs)"

section \<open>Properties of prune_messages\<close>

lemma total_content_simps [simp]:
  "total_content [] = 0"
  "total_content (m # ms) = int (length (content m)) + total_content ms"
  "total_content (xs @ ys) = total_content xs + total_content ys"
  "total_content (rev xs) = total_content xs"
  by (simp_all add: total_content_def rev_map [symmetric])

lemma total_content_nonneg: "0 \<le> total_content ms"
  by (induction ms) simp_all

lemma prune_loop_total:
  "total_content acc = t \<Longrightarrow> t \<le> b \<Longrightarrow> total_content (prune_loop xs b acc t) \<le> b"
proof (induction xs arbitrary: acc t)
  case Nil
  then show ?case by simp
next
  case (Cons m xs)
  show ?case
  proof (cases "b - t \<le> 0")
    case True
    with Cons.prems show ?thesis by simp
  next
    case False
    show ?thesis
    proof (cases "int (length (content m)) > b - t")
      case True
      with False Cons.prems show ?thesis by (simp add: Let_def)
    next
      case False
      have "total_content (prune_loop xs b (acc @ [m]) (t + int (length (content m)))) \<le> b"
        using False Cons.prems by (intro Cons.IH) simp_all
      with False \<open>\<not> b - t \<le> 0\<close> show ?thesis by (simp add: Let_def)
    qed
  qed
qed

lemma prune_loop_shape:
  "\<exists>k. prune_loop xs b acc t = acc @ take k xs \<or>
     (k < length xs \<and> (\<exists>n. n < length (content (xs ! k)) \<and>
        prune_loop xs b acc t =
          acc @ take k xs @ [\<lparr>role = role (xs ! k), content = take n (content (xs ! k))\<rparr>]))"
proof (induction xs arbitrary: acc t)
  case Nil
  then show ?case by simp
next
  case (Cons m xs)
  show ?case
  proof (cases "b - t \<le> 0")
    case True
    then have "prune_loop (m # xs) b acc t = acc @ take 0 (m # xs)" by simp
    then show ?thesis by blast
  next
    case False
    show ?thesis
    proof (cases "int (length (content m)) > b - t")
      case True
      with False have "prune_loop (m # xs) b acc t =
          acc @ take 0 (m # xs) @
            [\<lparr>role = role ((m # xs) ! 0),
              content = take (nat (b - t)) (content ((m # xs) ! 0))\<rparr>]"
        by (simp add: Let_def)
      moreover from True False have "nat (b - t) < length (content ((m # xs) ! 0))" by simp
      ultimately show ?thesis by (intro exI[of _ 0]) auto
    next
      case F2: False
      from Cons.IH[of "acc @ [m]" "t + int (length (content m))"]
      obtain k where k:
        "prune_loop xs b (acc @ [m]) (t + int (length (content m))) = (acc @ [m]) @ take k xs \<or>
         (k < length xs \<and> (\<exists>n. n < length (content (xs ! k)) \<and>
            prune_loop xs b (acc @ [m]) (t + int (length (content m))) =
              (acc @ [m]) @ take k xs @
                [\<lparr>role = role (xs ! k), content = take n (content (xs ! k))\<rparr>]))"
        by blast
      have eq: "prune_loop (m # xs) b acc t =
          prune_loop xs b (acc @ [m]) (t + int (length (content m)))"
        using False F2 by (simp add: Let_def)
      from k show ?thesis unfolding eq
        by (intro exI[of _ "Suc k"]) auto
    qed
  qed
qed

text \<open>
  The exact result of the loop when it reaches entry \<open>k\<close> of the reversed list with some
  budget left and that entry does not fit: the first \<open>k\<close> entries are kept whole and entry
  \<open>k\<close> is cut to the remaining budget.
\<close>

lemma prune_loop_truncates:
  "k < length xs \<Longrightarrow> t + total_content (take k xs) < b \<Longrightarrow>
   b - t - total_content (take k xs) < int (length (content (xs ! k))) \<Longrightarrow>
   prune_loop xs b acc t =
     acc @ take k xs @
       [\<lparr>role = role (xs ! k),
         content = take (nat (b - t - total_content (take k xs))) (content (xs ! k))\<rparr>]"
proof (induction xs arbitrary: k acc t)
  case Nil
  then show ?case by simp
next
  case (Cons m xs)
  show ?case
  proof (cases k)
    case 0
    with Cons.prems show ?thesis by (simp add: Let_def)
  next
    case (Suc j)
    have len: "0 \<le> total_content (take j xs)"
      by (rule total_content_nonneg)
    from Cons.prems Suc have fits: "\<not> b - t \<le> 0" "\<not> int (length (content m)) > b - t"
      using len by simp_all
    have "prune_loop xs b (acc @ [m]) (t + int (length (content m))) =
        (acc @ [m]) @ take j xs @
          [\<lparr>role = role (xs ! j),
            content = take (nat (b - (t + int (length (content m))) - total_content (take j xs)))
              (content (xs ! j))\<rparr>]"
      using Cons.prems Suc by (intro Cons.IH) (simp_all add: algebra_simps)
    with fits Suc show ?thesis by (simp add: Let_def algebra_simps)
  qed
qed

lemma rev_nth_last: "j < length ms \<Longrightarrow> rev ms ! (length ms - Suc j) = ms ! j"
  by (simp add: rev_nth)

lemma take_rev_drop: "j < length ms \<Longrightarrow> take (length ms - Suc j) (rev ms) = rev (drop (Suc j) ms)"
  by (simp add: take_rev)

subsection \<open>Claim C3\<close>

text \<open>
  C3.  For every history and every budget (a number of characters, so not negative),
  \<open>prune_messages\<close> returns a list whose total content length is at most the budget
  and which is a suffix of the history in chronological order, except that its first
  (oldest) entry may carry a proper prefix of the content of the corresponding history
  entry; all later entries are the history's own.  For 50 entries of 100 characters and
  budget 250 the result is the 50-character prefix of the third-most-recent entry
  followed by the two most recent entries.
\<close>

theorem prune_messages_within_budget:
  assumes "0 \<le> b"
  shows "total_content (prune_messages ms b) \<le> b \<and>
    (\<exists>k. prune_messages ms b = drop k ms \<or>
       (k < length ms \<and> (\<exists>n. n < length (content (ms ! k)) \<and>
          prune_messages ms b =
            \<lparr>role = role (ms ! k), content = take n (content (ms ! k))\<rparr> # drop (Suc k) ms))) \<and>
    prune_messages (replicate 50 \<lparr>role = str ''user'', content = replicate 100 104\<rparr>) 250 =
      [\<lparr>role = str ''user'', content = replicate 50 104\<rparr>,
       \<lparr>role = str ''user'', content = replicate 100 104\<rparr>,
       \<lparr>role = str ''user'', content = replicate 100 104\<rparr>]"
proof (intro conjI)
  have "total_content (prune_loop (rev ms) b [] 0) \<le> b"
    using assms by (intro prune_loop_total) simp_all
  then show "total_content (prune_messages ms b) \<le> b"
    by (simp add: prune_messages_def)
next
  obtain k where k: "prune_loop (rev ms) b [] 0 = [] @ take k (rev ms) \<or>
     (k < length (rev ms) \<and> (\<exists>n. n < length (content (rev ms ! k)) \<and>
        prune_loop (rev ms) b [] 0 =
          [] @ take k (rev ms) @
            [\<lparr>role = role (rev ms ! k), content = take n (content (rev ms ! k))\<rparr>]))"
    using prune_loop_shape[of "rev ms" b "[]" 0] by blast
  then show "\<exists>k. prune_messages ms b = drop k ms \<or>
       (k < length ms \<and> (\<exists>n. n < length (content (ms ! k)) \<and>
          prune_messages ms b =
            \<lparr>role = role (ms ! k), content = take n (content (ms ! k))\<rparr> # drop (Suc k) ms))"
  proof
    assume "prune_loop (rev ms) b [] 0 = [] @ take k (rev ms)"
    then have "prune_messages ms b = drop (length ms - k) ms"
      by (simp add: prune_messages_def take_rev)
    then show ?thesis by blast
  next
    assume a: "k < length (rev ms) \<and> (\<exists>n. n < length (content (rev ms ! k)) \<and>
        prune_loop (rev ms) b [] 0 =
          [] @ take k (rev ms) @
            [\<lparr>role = role (rev ms ! k), content = take n (content (rev ms ! k))\<rparr>])"
    then obtain n where kl: "k < length ms" and n: "n < length (content (rev ms ! k))"
      and eq: "prune_loop (rev ms) b [] 0 =
          take k (rev ms) @
            [\<lparr>role = role (rev ms ! k), content = take n (content (rev ms ! k))\<rparr>]"
      by auto
    define j where "j = length ms - Suc k"
    from kl have j: "j < length ms" and kj: "k = length ms - Suc j"
      by (simp_all add: j_def)
    have nth: "rev ms ! k = ms ! j" unfolding kj using j by (rule rev_nth_last)
    have tk: "take k (rev ms) = rev (drop (Suc j) ms)" unfolding kj using j by (rule take_rev_drop)
    have "prune_messages ms b =
        \<lparr>role = role (ms ! j), content = take n (content (ms ! j))\<rparr> # drop (Suc j) ms"
      by (simp add: prune_messages_def eq nth tk)
    with j n nth show ?thesis by auto
  qed
next
  show "prune_messages (replicate 50 \<lparr>role = str ''user'', content = replicate 100 104\<rparr>) 250 =
      [\<lparr>role = str ''user'', content = replicate 50 104\<rparr>,
       \<lparr>role = str ''user'', content = replicate 100 104\<rparr>,
       \<lparr>role = str ''user'', content = replicate 100 104\<rparr>]"
    by code_simp
qed

theorem prune_messages_within_budget_witness:
  "(0::int) \<le> 3 \<and>
   total_content (prune_messages
     [\<lparr>role = str ''user'', content = str ''hello''\<rparr>,
      \<lparr>role = str ''assistant'', content = str ''hi''\<rparr>] 3) \<le> 3"
  using prune_messages_within_budget [of 3
     "[\<lparr>role = str ''user'', content = str ''hello''\<rparr>,
       \<lparr>role = str ''assistant'', content = str ''hi''\<rparr>]"]
  by simp

subsection \<open>Claim C10\<close>

text \<open>
  C10.  When \<open>prune_messages\<close> truncates an entry (entry \<open>j\<close> of the history: the later
  entries together stay below the budget and entry \<open>j\<close> is longer than what is left), the
  result starts with a new record that has the role of entry \<open>j\<close> and, as content, the
  first remaining-budget characters of its content; the tail of the content is dropped,
  and the later entries follow unchanged.
\<close>

theorem prune_messages_keeps_prefix:
  assumes "j < length ms"
    and "total_content (drop (Suc j) ms) < b"
    and "b - total_content (drop (Suc j) ms) < int (length (content (ms ! j)))"
  shows "prune_messages ms b =
    \<lparr>role = role (ms ! j),
     content = take (nat (b - total_content (drop (Suc j) ms))) (content (ms ! j))\<rparr>
      # drop (Suc j) ms"
proof -
  let ?k = "length ms - Suc j"
  have k: "?k < length (rev ms)" using assms(1) by simp
  have tk: "take ?k (rev ms) = rev (drop (Suc j) ms)" using assms(1) by (rule take_rev_drop)
  have nth: "rev ms ! ?k = ms ! j" using assms(1) by (rule rev_nth_last)
  have "prune_loop (rev ms) b [] 0 =
      [] @ take ?k (rev ms) @
        [\<lparr>role = role (rev ms ! ?k),
          content = take (nat (b - 0 - total_content (take ?k (rev ms)))) (content (rev ms ! ?k))\<rparr>]"
    using k assms(2,3) by (intro prune_loop_truncates) (simp_all add: tk nth)
  then show ?thesis
    by (simp add: prune_messages_def tk nth)
qed

theorem prune_messages_keeps_prefix_witness:
  "prune_messages
     [\<lparr>role = str ''user'', content = str ''hello''\<rparr>,
      \<lparr>role = str ''assistant'', content = str ''hi''\<rparr>] 5 =
   [\<lparr>role = str ''user'', content = str ''hel''\<rparr>,
    \<lparr>role = str ''assistant'', content = str ''hi''\<rparr>]"
  using prune_messages_keeps_prefix [of 0
     "[\<lparr>role = str ''user'', content = str ''hello''\<rparr>,
       \<lparr>role = str ''assistant'', content = str ''hi''\<rparr>]" 5]
  by (simp add: str_def)

section \<open>Properties of the chunkers\<close>

lemma split_nl_not_Nil [simp]: "split_nl s \<noteq> []"
  by (induction s) (auto split: list.splits)

lemma join_split_nl [simp]: "join_nl (split_nl s) = s"
proof (induction s)
  case Nil
  then show ?case by simp
next
  case (Cons c cs)
  obtain l ls where ls: "split_nl cs = l # ls"
    using split_nl_not_Nil[of cs] by (cases "split_nl cs") auto
  show ?case
  proof (cases "c = nl")
    case True
    with Cons ls show ?thesis by simp
  next
    case False
    with Cons ls show ?thesis by (cases ls) auto
  qed
qed

lemma split_nl_line: "nl \<notin> set xs \<Longrightarrow> split_nl xs = [xs]"
  by (induction xs) auto

lemma split_nl_append: "nl \<notin> set xs \<Longrightarrow> split_nl (xs @ nl # ys) = xs # split_nl ys"
  by (induction xs) auto

lemma join_nl_append:
  "xs \<noteq> [] \<Longrightarrow> ys \<noteq> [] \<Longrightarrow> join_nl (xs @ ys) = join_nl xs @ nl # join_nl ys"
proof (induction xs rule: join_nl.induct)
  case 1
  then show ?case by simp
next
  case (2 x)
  then show ?case by (cases ys) auto
next
  case (3 x y zs)
  then show ?case by simp
qed

lemma join_nl_merge: "join_nl (xs @ [a, b]) = join_nl (xs @ [a @ nl # b])"
  by (induction xs rule: join_nl.induct) auto

text \<open>
  Once \<open>current_chunk\<close> holds a line, the loop of \<open>send_message_md_long\<close> keeps the text:
  the chunks and the last chunk, joined by newlines, are the lines joined by newlines.
\<close>

lemma md_loop_join:
  "current_chunk \<noteq> [] \<Longrightarrow> md_loop lines current_chunk chunks = (cs, c) \<Longrightarrow>
   c \<noteq> [] \<and> join_nl (cs @ [join_nl c]) = join_nl (chunks @ [join_nl (current_chunk @ lines)])"
proof (induction lines arbitrary: current_chunk chunks)
  case Nil
  then show ?case by auto
next
  case (Cons line lines)
  show ?case
  proof (cases "length current_chunk + length line + 1 > 4096")
    case True
    with Cons.prems have "md_loop lines [line] (chunks @ [join_nl current_chunk]) = (cs, c)"
      by simp
    from Cons.IH[OF _ this] have c: "c \<noteq> []"
      and j: "join_nl (cs @ [join_nl c]) =
        join_nl ((chunks @ [join_nl current_chunk]) @ [join_nl ([line] @ lines)])"
      by simp_all
    have "join_nl (current_chunk @ line # lines) =
        join_nl current_chunk @ nl # join_nl (line # lines)"
      using Cons.prems(1) by (intro join_nl_append) simp_all
    with j c show ?thesis by (simp add: join_nl_merge)
  next
    case False
    with Cons.prems have "md_loop lines (current_chunk @ [line]) chunks = (cs, c)"
      by simp
    from Cons.IH[OF _ this] show ?thesis by simp
  qed
qed

lemma hd_split_nl_length: "length (hd (split_nl (xs @ nl # ys))) \<le> length xs"
proof (induction xs)
  case Nil
  then show ?case by simp
next
  case (Cons c cs)
  obtain l ls where ls: "split_nl (cs @ nl # ys) = l # ls"
    using split_nl_not_Nil[of "cs @ nl # ys"] by (cases "split_nl (cs @ nl # ys)") auto
  with Cons show ?case by auto
qed

lemma md_long_roundtrip:
  assumes "length label \<le> 4093"
  shows "join_nl (send_message_md_long_chunks label response) = md_long_message label response"
proof -
  let ?final = "md_long_message label response"
  obtain l0 rest where ls: "split_nl ?final = l0 # rest"
    using split_nl_not_Nil[of ?final] by (cases "split_nl ?final") auto
  have "length (hd (split_nl (([42] @ label @ [42]) @ nl # response)))
      \<le> length ([42] @ label @ [42])"
    by (rule hd_split_nl_length)
  then have l0: "length l0 \<le> length label + 2"
    using ls by (simp add: md_long_message_def)
  obtain cs c where loop: "md_loop rest [l0] [] = (cs, c)"
    by (cases "md_loop rest [l0] []") auto
  from md_loop_join[OF _ loop] have c: "c \<noteq> []"
    and j: "join_nl (cs @ [join_nl c]) = join_nl (l0 # rest)" by simp_all
  have "md_loop (l0 # rest) [] [] = (cs, c)"
    using l0 assms loop by simp
  then have "send_message_md_long_chunks label response = cs @ [join_nl c]"
    using c by (simp add: send_message_md_long_chunks_def ls)
  with j ls show ?thesis
    by (metis join_split_nl)
qed

lemma kwargs_loop_bound:
  "\<forall>l\<in>set lines. length l \<le> 4096 \<Longrightarrow> length chunk \<le> 4096 \<Longrightarrow>
   \<forall>c\<in>set chunks. length c \<le> 4096 \<Longrightarrow> kwargs_loop lines chunk chunks = (cs, c) \<Longrightarrow>
   length c \<le> 4096 \<and> (\<forall>c\<in>set cs. length c \<le> 4096)"
proof (induction lines chunk chunks rule: kwargs_loop.induct)
  case (1 chunk chunks)
  then show ?case by simp
next
  case (2 line messages chunk chunks)
  then show ?case by (auto split: if_splits)
qed

lemma kwargs_long_bound:
  assumes "\<forall>l\<in>set (split_nl (label @ [nl] @ response)). length l \<le> 4096"
  shows "\<forall>c\<in>set (send_message_kwargs_long_chunks label response). length c \<le> 4096"
proof -
  obtain cs c where loop: "kwargs_loop (split_nl (label @ [nl] @ response)) [] [] = (cs, c)"
    by (cases "kwargs_loop (split_nl (label @ [nl] @ response)) [] []") auto
  from kwargs_loop_bound[OF assms _ _ loop]
  have "length c \<le> 4096 \<and> (\<forall>c\<in>set cs. length c \<le> 4096)" by simp
  with loop show ?thesis
    by (auto simp: send_message_kwargs_long_chunks_def)
qed




text \<open>
  The loop of \<open>send_message_md_long\<close> cuts between lines only: the chunks are groups of
  consecutive lines, each group joined by newlines.
\<close>

lemma md_loop_groups:
  "md_loop lines current_chunk chunks = (cs, c) \<Longrightarrow> chunks = map join_nl gs \<Longrightarrow>
   \<exists>gs'. cs = map join_nl gs' \<and> concat gs' @ c = concat gs @ current_chunk @ lines"
proof (induction lines arbitrary: current_chunk chunks gs)
  case Nil
  then show ?case by auto
next
  case (Cons line lines)
  show ?case
  proof (cases "length current_chunk + length line + 1 > 4096")
    case True
    with Cons.prems(1) have l: "md_loop lines [line] (chunks @ [join_nl current_chunk]) = (cs, c)"
      by simp
    have "chunks @ [join_nl current_chunk] = map join_nl (gs @ [current_chunk])"
      using Cons.prems(2) by simp
    from Cons.IH[OF l this] show ?thesis by simp
  next
    case False
    with Cons.prems(1) have l: "md_loop lines (current_chunk @ [line]) chunks = (cs, c)"
      by simp
    from Cons.IH[OF l Cons.prems(2)] show ?thesis by simp
  qed
qed

lemma md_loop_one_chunk:
  "\<forall>l\<in>set lines. length current_chunk + length lines + length l \<le> 4096 \<Longrightarrow>
   md_loop lines current_chunk chunks = (chunks, current_chunk @ lines)"
proof (induction lines arbitrary: current_chunk)
  case Nil
  then show ?case by simp
next
  case (Cons line lines)
  have "md_loop lines (current_chunk @ [line]) chunks = (chunks, (current_chunk @ [line]) @ lines)"
    using Cons.prems by (intro Cons.IH) auto
  with Cons.prems show ?case by simp
qed

subsection \<open>Claim C1\<close>

lemma replicate_append_eq_Cons:
  "0 < n \<Longrightarrow> (replicate n a @ xs = b # ys) = (a = b \<and> replicate (n - 1) a @ xs = ys)"
  by (cases n) auto

text \<open>
  C1.  The long senders at two responses of ordinary shape, no line longer than 1500
  characters.  \<open>send_message_kwargs_long\<close>, given four lines of 1500 characters, puts
  the newline behind each line it adds and none in front of it: the second segment is
  the third and the fourth line run together, and the segments give back the content
  neither joined by newlines nor concatenated.  \<open>send_message_md_long\<close>, given a
  fenced block of five lines of 1000 characters, compares the number of lines it holds
  with the limit and sends the whole message as one segment of 5025 characters.
\<close>

theorem long_senders_lose_lines_and_bound:
  "send_message_kwargs_long_chunks (str ''4o mini:'' @ [nl, nl])
     (replicate 1500 97 @ [nl] @ replicate 1500 98 @ [nl] @ replicate 1500 99 @ [nl] @
      replicate 1500 100) =
   [str ''4o mini:'' @ [nl, nl] @ replicate 1500 97 @ [nl] @ replicate 1500 98 @ [nl],
    replicate 1500 99 @ replicate 1500 100 @ [nl]] \<and>
   join_nl (send_message_kwargs_long_chunks (str ''4o mini:'' @ [nl, nl])
     (replicate 1500 97 @ [nl] @ replicate 1500 98 @ [nl] @ replicate 1500 99 @ [nl] @
      replicate 1500 100)) \<noteq>
   (str ''4o mini:'' @ [nl, nl]) @ [nl] @
     (replicate 1500 97 @ [nl] @ replicate 1500 98 @ [nl] @ replicate 1500 99 @ [nl] @
      replicate 1500 100) \<and>
   concat (send_message_kwargs_long_chunks (str ''4o mini:'' @ [nl, nl])
     (replicate 1500 97 @ [nl] @ replicate 1500 98 @ [nl] @ replicate 1500 99 @ [nl] @
      replicate 1500 100)) \<noteq>
   (str ''4o mini:'' @ [nl, nl]) @ [nl] @
     (replicate 1500 97 @ [nl] @ replicate 1500 98 @ [nl] @ replicate 1500 99 @ [nl] @
      replicate 1500 100) \<and>
   send_message_md_long_chunks (str ''4o mini:'' @ [nl, nl])
     (fence @ [nl] @ replicate 1000 97 @ [nl] @ replicate 1000 98 @ [nl] @ replicate 1000 99 @
      [nl] @ replicate 1000 100 @ [nl] @ replicate 1000 101 @ [nl] @ fence) =
   [md_long_message (str ''4o mini:'' @ [nl, nl])
     (fence @ [nl] @ replicate 1000 97 @ [nl] @ replicate 1000 98 @ [nl] @ replicate 1000 99 @
      [nl] @ replicate 1000 100 @ [nl] @ replicate 1000 101 @ [nl] @ fence)] \<and>
   length (md_long_message (str ''4o mini:'' @ [nl, nl])
     (fence @ [nl] @ replicate 1000 97 @ [nl] @ replicate 1000 98 @ [nl] @ replicate 1000 99 @
      [nl] @ replicate 1000 100 @ [nl] @ replicate 1000 101 @ [nl] @ fence)) = 5025"
proof -
  let ?r = "replicate 1500 97 @ [nl] @ replicate 1500 98 @ [nl] @ replicate 1500 99 @ [nl] @
      replicate 1500 (100::nat)"
  let ?f = "fence @ [nl] @ replicate 1000 97 @ [nl] @ replicate 1000 98 @ [nl] @ replicate 1000 99 @
      [nl] @ replicate 1000 100 @ [nl] @ replicate 1000 101 @ [nl] @ fence"
  have ch: "send_message_kwargs_long_chunks (str ''4o mini:'' @ [nl, nl]) ?r =
     [str ''4o mini:'' @ [nl, nl] @ replicate 1500 97 @ [nl] @ replicate 1500 98 @ [nl],
      replicate 1500 99 @ replicate 1500 100 @ [nl]]"
    by (simp add: send_message_kwargs_long_chunks_def str_def split_nl_line split_nl_append)
  have j: "join_nl (send_message_kwargs_long_chunks (str ''4o mini:'' @ [nl, nl]) ?r) \<noteq>
      (str ''4o mini:'' @ [nl, nl]) @ [nl] @ ?r"
    unfolding ch by (simp add: str_def replicate_append_eq_Cons)
  have c: "concat (send_message_kwargs_long_chunks (str ''4o mini:'' @ [nl, nl]) ?r) \<noteq>
      (str ''4o mini:'' @ [nl, nl]) @ [nl] @ ?r"
    unfolding ch by (simp add: str_def replicate_append_eq_Cons)
  have md: "send_message_md_long_chunks (str ''4o mini:'' @ [nl, nl]) ?f =
      [md_long_message (str ''4o mini:'' @ [nl, nl]) ?f]"
    by (simp add: send_message_md_long_chunks_def md_long_message_def str_def fence_def
        split_nl_line split_nl_append)
  have len: "length (md_long_message (str ''4o mini:'' @ [nl, nl]) ?f) = 5025"
    by (simp add: md_long_message_def str_def fence_def)
  from ch j c md len show ?thesis by (intro conjI)
qed

subsection \<open>Claim C2\<close>

lemma md_groups_not_Nil [simp]: "md_groups lines cur \<noteq> []"
  by (induction lines arbitrary: cur) auto

lemma md_loop_md_groups:
  "md_loop lines cur chunks =
     (chunks @ map join_nl (butlast (md_groups lines cur)), last (md_groups lines cur))"
  by (induction lines arbitrary: cur chunks) auto

lemma md_groups_concat: "concat (md_groups lines cur) = cur @ lines"
  by (induction lines arbitrary: cur) auto

lemma md_groups_last: "lines \<noteq> [] \<or> cur \<noteq> [] \<Longrightarrow> last (md_groups lines cur) \<noteq> []"
  by (induction lines arbitrary: cur) auto

lemma md_groups_hd: "\<exists>g rest. md_groups lines cur = (cur @ g) # rest"
proof (induction lines arbitrary: cur)
  case Nil
  then show ?case by simp
next
  case (Cons line lines)
  show ?case
  proof (cases "length cur + length line + 1 > 4096")
    case True
    then show ?thesis by simp
  next
    case False
    from Cons[of "cur @ [line]"] obtain g rest where
      "md_groups lines (cur @ [line]) = ((cur @ [line]) @ g) # rest" by blast
    with False show ?thesis by simp
  qed
qed

lemma md_groups_lengths:
  "map length lines = map length lines' \<Longrightarrow> length cur = length cur' \<Longrightarrow>
   map length (md_groups lines cur) = map length (md_groups lines' cur')"
proof (induction lines arbitrary: lines' cur cur')
  case Nil
  then show ?case by simp
next
  case (Cons line lines)
  then obtain line' ls' where l': "lines' = line' # ls'" "length line' = length line"
    "map length lines = map length ls'"
    by (cases lines') auto
  show ?case
  proof (cases "length cur + length line + 1 > 4096")
    case True
    have "map length (md_groups lines [line]) = map length (md_groups ls' [line'])"
      using l' by (intro Cons.IH) simp_all
    with True l' Cons.prems show ?thesis by simp
  next
    case False
    have "map length (md_groups lines (cur @ [line])) = map length (md_groups ls' (cur' @ [line']))"
      using l' Cons.prems by (intro Cons.IH) simp_all
    with False l' Cons.prems show ?thesis by simp
  qed
qed

lemma md_groups_long_line:
  "4096 \<le> length x \<Longrightarrow>
   md_groups (pre @ x # post) cur = md_groups pre cur @ md_groups post [x]"
  by (induction pre arbitrary: cur) auto

lemma md_long_chunks_groups:
  "send_message_md_long_chunks l r = map join_nl (md_groups (split_nl (md_long_message l r)) [])"
proof -
  let ?G = "md_groups (split_nl (md_long_message l r)) []"
  have ne: "last ?G \<noteq> []" by (intro md_groups_last) simp
  have "butlast ?G @ [last ?G] = ?G" by simp
  then have "map join_nl (butlast ?G) @ [join_nl (last ?G)] = map join_nl ?G"
    by (metis list.simps(8,9) map_append)
  with ne show ?thesis
    by (simp add: send_message_md_long_chunks_def md_loop_md_groups)
qed

text \<open>
  C2 (as amended).  The code-preserving variant \<open>send_message_md_long\<close> does nothing
  about fenced blocks.  Its segments are the lines of the message, in order, in groups of
  consecutive whole lines, each group joined by newlines.  Where it cuts depends on the
  lengths of the lines only: a message whose lines have the same lengths, whatever they
  hold, is cut into groups of the same sizes, so no boundary is moved because of a
  delimiter.  And a line of 4096 characters or more always starts a new segment, also
  inside a fenced block: the lines before it, an opening delimiter among them, are in
  earlier segments than the line and what follows it.
\<close>

theorem md_long_is_fence_blind:
  "(\<exists>gs. concat gs = split_nl (md_long_message l r) \<and>
      send_message_md_long_chunks l r = map join_nl gs \<and>
      (map length (split_nl (md_long_message l r)) = map length (split_nl (md_long_message l' r')) \<longrightarrow>
         (\<exists>gs'. concat gs' = split_nl (md_long_message l' r') \<and>
            send_message_md_long_chunks l' r' = map join_nl gs' \<and>
            map length gs' = map length gs))) \<and>
   (split_nl (md_long_message l r) = pre @ x # post \<and> 4096 \<le> length x \<longrightarrow>
      (\<exists>gs1 g gs2. concat gs1 = pre \<and> concat ((x # g) # gs2) = x # post \<and>
         send_message_md_long_chunks l r = map join_nl (gs1 @ (x # g) # gs2)))"
proof (intro conjI impI)
  let ?G = "md_groups (split_nl (md_long_message l r)) []"
  let ?G' = "md_groups (split_nl (md_long_message l' r')) []"
  have "map length (split_nl (md_long_message l r)) = map length (split_nl (md_long_message l' r')) \<longrightarrow>
      concat ?G' = split_nl (md_long_message l' r') \<and>
      send_message_md_long_chunks l' r' = map join_nl ?G' \<and> map length ?G' = map length ?G"
    using md_groups_lengths[of "split_nl (md_long_message l r)" "split_nl (md_long_message l' r')" "[]" "[]"]
    by (simp add: md_groups_concat md_long_chunks_groups)
  show "\<exists>gs. concat gs = split_nl (md_long_message l r) \<and>
      send_message_md_long_chunks l r = map join_nl gs \<and>
      (map length (split_nl (md_long_message l r)) = map length (split_nl (md_long_message l' r')) \<longrightarrow>
         (\<exists>gs'. concat gs' = split_nl (md_long_message l' r') \<and>
            send_message_md_long_chunks l' r' = map join_nl gs' \<and>
            map length gs' = map length gs))"
  proof -
    have A: "concat ?G = split_nl (md_long_message l r)" by (simp add: md_groups_concat)
    have B: "send_message_md_long_chunks l r = map join_nl ?G" by (rule md_long_chunks_groups)
    have C: "map length (split_nl (md_long_message l r)) =
        map length (split_nl (md_long_message l' r')) \<longrightarrow>
      (\<exists>gs'. concat gs' = split_nl (md_long_message l' r') \<and>
            send_message_md_long_chunks l' r' = map join_nl gs' \<and>
            map length gs' = map length ?G)"
      using \<open>map length (split_nl (md_long_message l r)) =
        map length (split_nl (md_long_message l' r')) \<longrightarrow>
      concat ?G' = split_nl (md_long_message l' r') \<and>
      send_message_md_long_chunks l' r' = map join_nl ?G' \<and> map length ?G' = map length ?G\<close>
      by blast
    from A B C show ?thesis by blast
  qed
next
  assume a: "split_nl (md_long_message l r) = pre @ x # post \<and> 4096 \<le> length x"
  then have G: "md_groups (split_nl (md_long_message l r)) [] = md_groups pre [] @ md_groups post [x]"
    by (simp add: md_groups_long_line)
  obtain g gs2 where g: "md_groups post [x] = ([x] @ g) # gs2"
    using md_groups_hd[of post "[x]"] by blast
  have c1: "concat (md_groups pre []) = pre" by (simp add: md_groups_concat)
  have "concat (md_groups post [x]) = x # post" by (simp add: md_groups_concat)
  then have c2: "concat ((x # g) # gs2) = x # post" using g by simp
  have "send_message_md_long_chunks l r = map join_nl (md_groups pre [] @ (x # g) # gs2)"
    using G g by (simp add: md_long_chunks_groups)
  with c1 c2 show "\<exists>gs1 g gs2. concat gs1 = pre \<and> concat ((x # g) # gs2) = x # post \<and>
         send_message_md_long_chunks l r = map join_nl (gs1 @ (x # g) # gs2)"
    by blast
qed


theorem md_long_is_fence_blind_witness:
  "2 \<le> length (send_message_md_long_chunks (str ''4o:'' @ [nl, nl])
      (fence @ [nl] @ replicate 4200 98 @ [nl] @ fence)) \<and>
   send_message_md_long_chunks (str ''4o:'' @ [nl, nl])
      (fence @ [nl] @ replicate 4200 98 @ [nl] @ fence) =
     [str ''*4o:'' @ [nl, nl] @ str ''*'' @ [nl] @ fence, replicate 4200 98 @ [nl] @ fence]"
proof -
  let ?l = "str ''4o:'' @ [nl, nl]"
  let ?r = "fence @ [nl] @ replicate 4200 98 @ [nl] @ fence"
  let ?pre = "[str ''*4o:'', [], str ''*'', fence]"
  have sp: "split_nl (md_long_message ?l ?r) = ?pre @ replicate 4200 98 # [fence]"
    by (simp add: md_long_message_def str_def fence_def split_nl_line split_nl_append)
  have len: "4096 \<le> length (replicate 4200 (98::nat))" by simp
  from md_long_is_fence_blind [of ?l ?r ?l ?r ?pre "replicate 4200 98" "[fence]"] sp len
  obtain gs1 g gs2 where "concat gs1 = ?pre"
    and c: "send_message_md_long_chunks ?l ?r = map join_nl (gs1 @ (replicate 4200 98 # g) # gs2)"
    by blast
  then have "gs1 \<noteq> []" by auto
  then have "2 \<le> length (gs1 @ (replicate 4200 98 # g) # gs2)"
    by (cases gs1) simp_all
  then have two: "2 \<le> length (send_message_md_long_chunks ?l ?r)"
    unfolding c by simp
  have "send_message_md_long_chunks ?l ?r =
     [str ''*4o:'' @ [nl, nl] @ str ''*'' @ [nl] @ fence, replicate 4200 98 @ [nl] @ fence]"
    by (simp add: send_message_md_long_chunks_def md_long_message_def str_def fence_def
        split_nl_line split_nl_append)
  with two show ?thesis by (intro conjI)
qed

text \<open>
  The claim as stated fails: for a response of 4104 characters that is one fenced block,
  the opening delimiter ends the first segment and the closing one ends the second.
\<close>

theorem md_long_splits_fenced_block:
  "send_message_md_long_chunks (str ''4o mini:'' @ [nl, nl])
     (fence @ [nl] @ replicate 4096 97 @ [nl] @ fence) =
   [str ''*4o mini:'' @ [nl, nl] @ str ''*'' @ [nl] @ fence, replicate 4096 97 @ [nl] @ fence]"
  by (simp add: send_message_md_long_chunks_def md_long_message_def str_def fence_def
      split_nl_line split_nl_append)

subsection \<open>Claim C6\<close>

lemma digits_decimal:
  "(\<forall>d\<in>set (digits n). 48 \<le> d \<and> d \<le> 57) \<and>
   foldl (\<lambda>a d. 10 * a + (d - 48)) 0 (digits n) = n"
proof (induction n rule: digits.induct)
  case (1 n)
  show ?case
  proof (cases "n < 10")
    case True
    then show ?thesis by (simp add: digits.simps[of n])
  next
    case False
    with 1 have "(\<forall>d\<in>set (digits (n div 10)). 48 \<le> d \<and> d \<le> 57)"
      and "foldl (\<lambda>a d. 10 * a + (d - 48)) 0 (digits (n div 10)) = n div 10"
      by simp_all
    with False show ?thesis by (simp add: digits.simps[of n])
  qed
qed

text \<open>
  C6.  The access check admits a user exactly when the identifier is the owner's or the
  admin's or \<open>ALL_USERS_ACCESS\<close> is true; an admitted check leaves the world as it is, and
  a refused one returns false and adds one effect, the answer whose text contains the
  decimal user identifier.  The flag is false at startup.
\<close>

theorem checkAccess_admits_iff:
  "checkAccess cfg user_id w =
     (if user_id = OWNER_ID cfg \<or> user_id = ADMIN_ID cfg \<or> ALL_USERS_ACCESS w then (True, w)
      else (False, w\<lparr>effects := effects w @
        [answer (str ''<i>Sorry, you do not have access to this bot.'' @ [nl] @
                 str ''User ID:</i> <b>'' @ str_int user_id @ str ''</b>'') HTML None]\<rparr>)) \<and>
   \<not> ALL_USERS_ACCESS (startup us)"
  by (simp add: checkAccess_def emit_def access_denied_text_def startup_def)

theorem checkAccess_admits_iff_witness:
  "checkAccess example_env 12345 (startup (\<lambda>_. fresh_user)) =
     (False, (startup (\<lambda>_. fresh_user))\<lparr>effects :=
        [answer (str ''<i>Sorry, you do not have access to this bot.'' @ [nl] @
                 str ''User ID:</i> <b>12345</b>'') HTML None]\<rparr>)"
  using checkAccess_admits_iff [of example_env 12345 "startup (\<lambda>_. fresh_user)"]
  by (simp add: example_env_def startup_def str_int_def digits.simps str_def)

section \<open>Properties of the dispatch\<close>

lemma perform_all_no_raise:
  "\<forall>n. \<forall>e\<in>set es. raises cfg n e = None \<Longrightarrow>
   perform_all cfg es w = Inr (w\<lparr>effects := effects w @ es\<rparr>)"
proof (induction es arbitrary: w)
  case Nil
  then show ?case by simp
next
  case (Cons e es)
  have e: "perform cfg e w = Inr (emit e w)"
    using Cons.prems by (simp add: perform_def)
  have "perform_all cfg es (emit e w) = Inr ((emit e w)\<lparr>effects := effects (emit e w) @ es\<rparr>)"
    using Cons.prems by (intro Cons.IH) simp
  with e show ?case by (simp add: and_then_def emit_def)
qed

lemma speak_no_raise:
  "\<forall>n. raises cfg n (send_audio response) = None \<Longrightarrow>
   speak cfg ud response w =
     Inr (w\<lparr>effects := effects w @ (if voice_answer ud then [send_audio response] else [])\<rparr>)"
  by (simp add: speak_def text_to_speech_def perform_def emit_def)


lemma kwargs_loop_chunks_grow:
  "kwargs_loop lines chunk chunks = (cs, c) \<Longrightarrow> \<exists>r. cs = chunks @ r"
proof (induction lines chunk chunks rule: kwargs_loop.induct)
  case (1 chunk chunks)
  then show ?case by simp
next
  case (2 line messages chunk chunks)
  then show ?case by (auto split: if_splits)
qed

lemma kwargs_loop_first_chunk:
  "chunk \<noteq> [] \<Longrightarrow> kwargs_loop lines chunk [] = (cs, c) \<Longrightarrow> \<exists>s. hd (cs @ [c]) = chunk @ s"
proof (induction lines arbitrary: chunk)
  case Nil
  then show ?case by simp
next
  case (Cons line lines)
  show ?case
  proof (cases "length chunk + length line + 1 > 4096")
    case True
    with Cons.prems have "kwargs_loop lines line [chunk] = (cs, c)" by simp
    from kwargs_loop_chunks_grow[OF this] show ?thesis by auto
  next
    case False
    with Cons.prems have "kwargs_loop lines (chunk @ line @ [nl]) [] = (cs, c)" by simp
    from Cons.IH[OF _ this] show ?thesis by auto
  qed
qed

text \<open>
  For a label that is one line followed by two newlines, as every label of the handlers
  is, the first chunk of \<open>send_message_kwargs_long\<close> starts with the label.
\<close>

lemma kwargs_long_label_first:
  assumes "x \<noteq> []" "nl \<notin> set x" "length x \<le> 4094"
  shows "\<exists>s rest. send_message_kwargs_long_chunks (x @ [nl, nl]) response = ((x @ [nl, nl]) @ s) # rest"
proof -
  have sp: "split_nl ((x @ [nl, nl]) @ [nl] @ response) = x # [] # [] # split_nl response"
    using assms(2) split_nl_append[of x "nl # nl # response"]
      split_nl_append[of "[]" "nl # response"] split_nl_append[of "[]" response]
    by simp
  obtain cs c where loop: "kwargs_loop (split_nl response) (x @ [nl, nl]) [] = (cs, c)"
    by (cases "kwargs_loop (split_nl response) (x @ [nl, nl]) []") auto
  have start: "kwargs_loop (x # [] # [] # split_nl response) [] [] = (cs, c)"
    using assms(1,3) loop by simp
  from kwargs_loop_first_chunk[OF _ loop] obtain s where s: "hd (cs @ [c]) = (x @ [nl, nl]) @ s"
    by auto
  show ?thesis
  proof (cases "c = []")
    case True
    with s have "cs \<noteq> []" by auto
    then obtain a r where "cs = a # r" by (cases cs) auto
    with s True start sp show ?thesis
      by (simp add: send_message_kwargs_long_chunks_def)
  next
    case False
    show ?thesis
    proof (cases cs)
      case Nil
      with s False start sp show ?thesis
        by (simp add: send_message_kwargs_long_chunks_def)
    next
      case (Cons a r)
      with s False start sp show ?thesis
        by (simp add: send_message_kwargs_long_chunks_def)
    qed
  qed
qed

lemma contains_fence_mem: "contains fence s \<Longrightarrow> 96 \<in> set s"
  by (induction s) (auto simp: fence_def split: if_splits)

lemma kwargs_loop_long_lines:
  "\<forall>l\<in>set ls. 2048 \<le> length l \<Longrightarrow> 2048 \<le> length chunk \<Longrightarrow>
   kwargs_loop ls chunk chunks = (chunks @ butlast (chunk # ls), last (chunk # ls))"
  by (induction ls arbitrary: chunk chunks) auto

text \<open>
  A response whose lines all have at least 2048 characters, the first of them fitting
  into a chunk with the label: the label and the first line make the first chunk and
  every further line is a chunk of its own.
\<close>

lemma kwargs_long_chunk_per_line:
  assumes "x \<noteq> []" "nl \<notin> set x" "split_nl response = l1 # rest"
    and "length x + length l1 + 3 \<le> 4096"
    and "\<forall>l\<in>set (l1 # rest). 2048 \<le> length l"
  shows "send_message_kwargs_long_chunks (x @ [nl, nl]) response =
    (x @ [nl, nl] @ l1 @ [nl]) # rest"
proof -
  have sp: "split_nl ((x @ [nl, nl]) @ [nl] @ response) = x # [] # [] # l1 # rest"
    using assms(2,3) split_nl_append[of x "nl # nl # response"]
      split_nl_append[of "[]" "nl # response"] split_nl_append[of "[]" response]
    by simp
  have start: "kwargs_loop (x # [] # [] # l1 # rest) [] [] =
      kwargs_loop rest (x @ [nl, nl] @ l1 @ [nl]) []"
    using assms(1,4) by simp
  have "kwargs_loop rest (x @ [nl, nl] @ l1 @ [nl]) [] =
      ([] @ butlast ((x @ [nl, nl] @ l1 @ [nl]) # rest), last ((x @ [nl, nl] @ l1 @ [nl]) # rest))"
    using assms(5) by (intro kwargs_loop_long_lines) simp_all
  moreover have "last ((x @ [nl, nl] @ l1 @ [nl]) # rest) \<noteq> []"
    using assms(5) by (cases rest rule: rev_cases) auto
  moreover have "butlast ((x @ [nl, nl] @ l1 @ [nl]) # rest) @ [last ((x @ [nl, nl] @ l1 @ [nl]) # rest)] =
      (x @ [nl, nl] @ l1 @ [nl]) # rest"
    by (rule append_butlast_last_id) simp
  ultimately show ?thesis
    using sp start by (simp add: send_message_kwargs_long_chunks_def)
qed

lemma dispatch_no_raise:
  assumes "\<forall>n e. raises cfg n e = None"
  shows "send_response cfg ud response w =
     Inr (w\<lparr>effects := effects w @
       (if contains fence response then
          (if length response > 4096
           then map (\<lambda>chunk. answer chunk MARKDOWN None)
                  (send_message_md_long_chunks (model_message_chat ud) response)
           else [reply ([42] @ model_message_chat ud @ [42] @ response) MARKDOWN])
        else
          (if length response > 4096
           then map (\<lambda>chunk. answer chunk (ENTITIES 0) None)
                  (send_message_kwargs_long_chunks (model_message_chat ud) response)
           else [reply (model_message_chat ud @ response)
                   (ENTITIES (length (model_message_chat ud)))])) @
       (if voice_answer ud then [send_audio response] else [])\<rparr>)"
proof -
  have sp: "\<And>w. speak cfg ud response w =
     Inr (w\<lparr>effects := effects w @ (if voice_answer ud then [send_audio response] else [])\<rparr>)"
    using assms by (simp add: speak_no_raise)
  have pa: "\<And>es w. perform_all cfg es w = Inr (w\<lparr>effects := effects w @ es\<rparr>)"
    using assms by (simp add: perform_all_no_raise)
  have p: "\<And>e w. perform cfg e w = Inr (w\<lparr>effects := effects w @ [e]\<rparr>)"
    using assms by (simp add: perform_def emit_def)
  have "send_response_try cfg ud response w = Inr (w\<lparr>effects := effects w @
       (if contains fence response then
          (if length response > 4096
           then map (\<lambda>chunk. answer chunk MARKDOWN None)
                  (send_message_md_long_chunks (model_message_chat ud) response)
           else [reply ([42] @ model_message_chat ud @ [42] @ response) MARKDOWN])
        else
          (if length response > 4096
           then map (\<lambda>chunk. answer chunk (ENTITIES 0) None)
                  (send_message_kwargs_long_chunks (model_message_chat ud) response)
           else [reply (model_message_chat ud @ response)
                   (ENTITIES (length (model_message_chat ud)))])) @
       (if voice_answer ud then [send_audio response] else [])\<rparr>)"
    by (simp add: send_response_try_def send_message_md_long_def send_message_md_def
        send_message_kwargs_long_def send_message_kwargs_def and_then_def sp pa p)
  then show ?thesis by (simp add: send_response_def)
qed

subsection \<open>Claim C4\<close>

text \<open>
  C4 (as amended).  When no send fails, the dispatch of a response is chosen by shape and
  length: a response that contains a triple backtick goes through the Markdown senders
  and any other through the formatted ones; a response longer than 4096 characters is
  sent as the chunks of the long sender, one send per chunk, and a shorter one as a
  single reply; the audio follows when the voice answer is on.  For a label that is a
  line followed by two newlines the first chunk of the formatted long sender starts with
  the label.  The number of sends of a long response follows its lines, not its length:
  when every line of the response has at least 2048 characters and the first one fits
  into a chunk with the label, the first send is the label with the first line and every
  further line is one send, so a response of 9000 characters gives three sends when it
  has three such lines and four when it has four.
\<close>

theorem dispatch_by_shape_and_length:
  "((\<forall>n e. raises cfg n e = None) \<longrightarrow>
     send_response cfg ud response w =
       Inr (w\<lparr>effects := effects w @
         (if contains fence response then
            (if length response > 4096
             then map (\<lambda>chunk. answer chunk MARKDOWN None)
                    (send_message_md_long_chunks (model_message_chat ud) response)
             else [reply ([42] @ model_message_chat ud @ [42] @ response) MARKDOWN])
          else
            (if length response > 4096
             then map (\<lambda>chunk. answer chunk (ENTITIES 0) None)
                    (send_message_kwargs_long_chunks (model_message_chat ud) response)
             else [reply (model_message_chat ud @ response)
                     (ENTITIES (length (model_message_chat ud)))])) @
         (if voice_answer ud then [send_audio response] else [])\<rparr>)) \<and>
   (x \<noteq> [] \<and> nl \<notin> set x \<and> length x \<le> 4094 \<longrightarrow>
     (\<exists>s rest. send_message_kwargs_long_chunks (x @ [nl, nl]) response =
        ((x @ [nl, nl]) @ s) # rest)) \<and>
   (x \<noteq> [] \<and> nl \<notin> set x \<and> split_nl response = l1 # ls \<and>
    length x + length l1 + 3 \<le> 4096 \<and> (\<forall>l\<in>set (l1 # ls). 2048 \<le> length l) \<longrightarrow>
     send_message_kwargs_long_chunks (x @ [nl, nl]) response =
       (x @ [nl, nl] @ l1 @ [nl]) # ls)"
  using dispatch_no_raise[of cfg ud response w] kwargs_long_label_first[of x response]
    kwargs_long_chunk_per_line[of x response l1 ls]
  by blast

theorem dispatch_by_shape_and_length_witness:
  "length (replicate 2999 98 @ [nl] @ replicate 2999 99 @ [nl] @ replicate 3000 (100::nat)) = 9000 \<and>
   send_response example_env fresh_user
     (replicate 2999 98 @ [nl] @ replicate 2999 99 @ [nl] @ replicate 3000 100)
     (startup (\<lambda>_. fresh_user)) =
     Inr ((startup (\<lambda>_. fresh_user))\<lparr>effects :=
       [answer (str ''4o mini:'' @ [nl, nl] @ replicate 2999 98 @ [nl]) (ENTITIES 0) None,
        answer (replicate 2999 99) (ENTITIES 0) None,
        answer (replicate 3000 100) (ENTITIES 0) None]\<rparr>)"
proof -
  let ?r = "replicate 2999 98 @ [nl] @ replicate 2999 99 @ [nl] @ replicate 3000 (100::nat)"
  let ?w = "startup (\<lambda>_. fresh_user)"
  have nf: "\<not> contains fence ?r"
    using contains_fence_mem[of ?r] by auto
  have sp: "split_nl ?r = replicate 2999 98 # [replicate 2999 99, replicate 3000 100]"
    by (simp add: split_nl_line split_nl_append)
  have x: "str ''4o mini:'' \<noteq> [] \<and> nl \<notin> set (str ''4o mini:'')" by (simp add: str_def)
  have nr: "\<forall>n e. raises example_env n e = None" by (simp add: example_env_def)
  note t = dispatch_by_shape_and_length [of example_env fresh_user ?r ?w "str ''4o mini:''"
      "replicate 2999 98" "[replicate 2999 99, replicate 3000 100]"]
  have ch: "send_message_kwargs_long_chunks (str ''4o mini:'' @ [nl, nl]) ?r =
      (str ''4o mini:'' @ [nl, nl] @ replicate 2999 98 @ [nl]) #
        [replicate 2999 99, replicate 3000 100]"
    using t x sp by (simp add: str_def)
  have "send_response example_env fresh_user ?r ?w =
       Inr (?w\<lparr>effects := effects ?w @
            map (\<lambda>chunk. answer chunk (ENTITIES 0) None)
              (send_message_kwargs_long_chunks (model_message_chat fresh_user) ?r) @
         (if voice_answer fresh_user then [send_audio ?r] else [])\<rparr>)"
    using t nr nf by simp
  then show ?thesis using ch
    by (simp add: fresh_user_def startup_def)
qed

text \<open>
  The claim as stated fails: a response of 9000 characters without a fence, in four
  lines that each fit into a message, is dispatched as four sends.
\<close>

theorem dispatch_9000_in_four_lines:
  "length (replicate 2249 97 @ [nl] @ replicate 2249 97 @ [nl] @ replicate 2249 97 @ [nl] @
     replicate 2250 (97::nat)) = 9000 \<and>
   \<not> contains fence (replicate 2249 97 @ [nl] @ replicate 2249 97 @ [nl] @ replicate 2249 97 @
     [nl] @ replicate 2250 97) \<and>
   send_response example_env fresh_user
     (replicate 2249 97 @ [nl] @ replicate 2249 97 @ [nl] @ replicate 2249 97 @ [nl] @
      replicate 2250 97)
     (startup (\<lambda>_. fresh_user)) =
     Inr ((startup (\<lambda>_. fresh_user))\<lparr>effects :=
       [answer (str ''4o mini:'' @ [nl, nl] @ replicate 2249 97 @ [nl]) (ENTITIES 0) None,
        answer (replicate 2249 97) (ENTITIES 0) None,
        answer (replicate 2249 97) (ENTITIES 0) None,
        answer (replicate 2250 97) (ENTITIES 0) None]\<rparr>)"
proof -
  let ?r = "replicate 2249 97 @ [nl] @ replicate 2249 97 @ [nl] @ replicate 2249 97 @ [nl] @
     replicate 2250 (97::nat)"
  have nf: "\<not> contains fence ?r"
    using contains_fence_mem[of ?r] by auto
  have ch: "send_message_kwargs_long_chunks (str ''4o mini:'' @ [nl, nl]) ?r =
     [str ''4o mini:'' @ [nl, nl] @ replicate 2249 97 @ [nl], replicate 2249 97,
      replicate 2249 97, replicate 2250 97]"
    by (simp add: send_message_kwargs_long_chunks_def str_def split_nl_line split_nl_append)
  have nr: "\<forall>n e. raises example_env n e = None" by (simp add: example_env_def)
  have "send_response example_env fresh_user ?r (startup (\<lambda>_. fresh_user)) =
       Inr ((startup (\<lambda>_. fresh_user))\<lparr>effects := effects (startup (\<lambda>_. fresh_user)) @
            map (\<lambda>chunk. answer chunk (ENTITIES 0) None)
              (send_message_kwargs_long_chunks (model_message_chat fresh_user) ?r) @
         (if voice_answer fresh_user then [send_audio ?r] else [])\<rparr>)"
    using dispatch_no_raise[of example_env fresh_user ?r "startup (\<lambda>_. fresh_user)"] nr nf
    by simp
  then show ?thesis using ch nf
    by (simp add: fresh_user_def startup_def)
qed

subsection \<open>Claim C5\<close>




section \<open>Properties of the handlers\<close>

lemma checkAccess_granted:
  "fst (checkAccess cfg u w) \<Longrightarrow> checkAccess cfg u w = (True, w)"
  by (simp add: checkAccess_def split: if_splits)

subsection \<open>Claim C7\<close>

text \<open>
  C7 (as amended).  A settings transition (image quality, image size, voice answer,
  model, removal of the role) invoked when the setting already has the requested value
  writes nothing to the store, changes no user record and does not render the screen
  again.  The access check of a callback handler is made on the sender of the menu
  message, not on the user who pressed the button: when that identifier is the owner's
  or the admin's or \<open>ALL_USERS_ACCESS\<close> is on, the only effect is the acknowledgement of
  the callback query (the removal of the role also clears the caller's pending input
  state); otherwise the only effect is the denial that names that identifier.
\<close>

theorem setting_already_set_no_write_no_render:
  "(let ack =
       (if cb_message_from_user_id cq = OWNER_ID cfg \<or>
           cb_message_from_user_id cq = ADMIN_ID cfg \<or> ALL_USERS_ACCESS w
        then w\<lparr>effects := effects w @ [callback_answer]\<rparr>
        else w\<lparr>effects := effects w @
               [answer (access_denied_text (cb_message_from_user_id cq)) HTML None]\<rparr>)
    in
    (pic_grade (users w (cb_from_user_id cq)) = str ''standard'' \<longrightarrow>
       process_callback_set_sd cfg cq w = ack) \<and>
    (pic_grade (users w (cb_from_user_id cq)) = str ''hd'' \<longrightarrow>
       process_callback_set_hd cfg cq w = ack) \<and>
    (pic_size (users w (cb_from_user_id cq)) = str ''1024x1024'' \<longrightarrow>
       process_callback_set_1024x1024 cfg cq w = ack) \<and>
    (pic_size (users w (cb_from_user_id cq)) = str ''1024x1792'' \<longrightarrow>
       process_callback_set_1024x1792 cfg cq w = ack) \<and>
    (pic_size (users w (cb_from_user_id cq)) = str ''1792x1024'' \<longrightarrow>
       process_callback_set_1792x1024 cfg cq w = ack) \<and>
    (voice_answer (users w (cb_from_user_id cq)) \<longrightarrow>
       process_callback_voice_answer_add cfg cq w = ack) \<and>
    (\<not> voice_answer (users w (cb_from_user_id cq)) \<longrightarrow>
       process_callback_voice_answer_del cfg cq w = ack) \<and>
    (model (users w (cb_from_user_id cq)) = str ''gpt-4o-mini'' \<longrightarrow>
       process_callback_gpt_4o_mini cfg cq w = ack) \<and>
    (model (users w (cb_from_user_id cq)) = str ''gpt-4o'' \<longrightarrow>
       process_callback_gpt_4_o cfg cq w = ack) \<and>
    (model (users w (cb_from_user_id cq)) = str ''o1-mini'' \<longrightarrow>
       process_callback_gpt_o1_mini cfg cq w = ack) \<and>
    (model (users w (cb_from_user_id cq)) = str ''o1-preview'' \<longrightarrow>
       process_callback_gpt_o1_preview cfg cq w = ack) \<and>
    (model (users w (cb_from_user_id cq)) = str ''dall-e-3'' \<longrightarrow>
       process_callback_dall_e_3 cfg cq w = ack) \<and>
    (system_message (users w (cb_from_user_id cq)) = [] \<longrightarrow>
       process_callback_delete_value cfg cq w =
         (if cb_message_from_user_id cq = OWNER_ID cfg \<or>
             cb_message_from_user_id cq = ADMIN_ID cfg \<or> ALL_USERS_ACCESS w
          then (state_clear (cb_from_user_id cq) w)\<lparr>effects := effects w @ [callback_answer]\<rparr>
          else ack)))"
  by (simp add: process_callback_set_sd_def process_callback_set_hd_def set_pic_grade_def
        process_callback_set_1024x1024_def process_callback_set_1024x1792_def
        process_callback_set_1792x1024_def set_pic_size_def
        process_callback_voice_answer_add_def process_callback_voice_answer_del_def
        process_callback_gpt_4o_mini_def process_callback_gpt_4_o_def
        process_callback_gpt_o1_mini_def process_callback_gpt_o1_preview_def
        process_callback_dall_e_3_def process_callback_delete_value_def state_clear_def
        with_access_def checkAccess_def emit_def Let_def)

theorem setting_already_set_no_write_no_render_witness:
  "process_callback_set_sd example_env
     \<lparr>cb_from_user_id = 1, cb_message_from_user_id = 999,
      cb_message_text = str ''standard : 1024x1024 ''\<rparr>
     ((startup (\<lambda>_. fresh_user))\<lparr>ALL_USERS_ACCESS := True\<rparr>) =
   (startup (\<lambda>_. fresh_user))\<lparr>ALL_USERS_ACCESS := True, effects := [callback_answer]\<rparr> \<and>
   process_callback_set_sd example_env
     \<lparr>cb_from_user_id = 1, cb_message_from_user_id = 999,
      cb_message_text = str ''standard : 1024x1024 ''\<rparr>
     (startup (\<lambda>_. fresh_user)) =
   (startup (\<lambda>_. fresh_user))\<lparr>effects :=
      [answer (str ''<i>Sorry, you do not have access to this bot.'' @ [nl] @
               str ''User ID:</i> <b>999</b>'') HTML None]\<rparr>"
  using setting_already_set_no_write_no_render [of
     "\<lparr>cb_from_user_id = 1, cb_message_from_user_id = 999,
       cb_message_text = str ''standard : 1024x1024 ''\<rparr>" example_env
     "(startup (\<lambda>_. fresh_user))\<lparr>ALL_USERS_ACCESS := True\<rparr>"]
   setting_already_set_no_write_no_render [of
     "\<lparr>cb_from_user_id = 1, cb_message_from_user_id = 999,
       cb_message_text = str ''standard : 1024x1024 ''\<rparr>" example_env
     "startup (\<lambda>_. fresh_user)"]
  by (simp add: example_env_def startup_def fresh_user_def Let_def access_denied_text_def
      str_int_def digits.simps str_def)

text \<open>
  The claim as stated fails: with access open to all users, setting the quality to
  standard when it is standard sends the acknowledgement and no \<open>edit_text\<close>, so the
  screen is not rendered again.
\<close>

theorem set_sd_does_not_render:
  "effects (process_callback_set_sd example_env
     \<lparr>cb_from_user_id = 7, cb_message_from_user_id = 999,
      cb_message_text = str ''standard : 1024x1024 ''\<rparr>
     ((startup (\<lambda>_. fresh_user))\<lparr>ALL_USERS_ACCESS := True\<rparr>)) = [callback_answer]"
  by (simp add: process_callback_set_sd_def set_pic_grade_def with_access_def example_env_def
      checkAccess_def startup_def fresh_user_def emit_def)

lemma emit_simps [simp]:
  "users (emit e w) = users w"
  "effects (emit e w) = effects w @ [e]"
  by (simp_all add: emit_def)

lemma extends_refl [simp]: "extends w w"
  by (simp add: extends_def)

lemma extends_trans: "extends w w1 \<Longrightarrow> extends w1 w2 \<Longrightarrow> extends w w2"
  by (auto simp: extends_def)

lemma extends_emit [simp]: "extends w (emit e w)"
  by (simp add: extends_def)

lemma extends_perform: "extends w (final (perform cfg e w))"
  by (simp add: perform_def final_def split: option.splits)

lemma extends_and_then:
  "extends w (final r) \<Longrightarrow> (\<And>w1. r = Inr w1 \<Longrightarrow> extends w1 (final (f w1))) \<Longrightarrow>
   extends w (final (and_then r f))"
proof (cases r)
  case (Inl x)
  assume "extends w (final r)"
  with Inl show ?thesis by (simp add: and_then_def final_def)
next
  case (Inr w1)
  assume a: "extends w (final r)" and b: "\<And>w1. r = Inr w1 \<Longrightarrow> extends w1 (final (f w1))"
  from a Inr have "extends w w1" by (simp add: final_def)
  moreover from b Inr have "extends w1 (final (f w1))" by simp
  ultimately show ?thesis using Inr by (auto simp: and_then_def intro: extends_trans)
qed

lemma extends_perform_all: "extends w (final (perform_all cfg es w))"
proof (induction es arbitrary: w)
  case Nil
  then show ?case by (simp add: final_def)
next
  case (Cons e es)
  show ?case
    by (simp, rule extends_and_then) (simp_all add: extends_perform Cons.IH)
qed

lemma extends_speak: "extends w (final (speak cfg ud r w))"
  by (simp add: speak_def text_to_speech_def extends_perform) (simp add: final_def)

lemma extends_send_response_try: "extends w (final (send_response_try cfg ud r w))"
  unfolding send_response_try_def send_message_md_long_def send_message_md_def
    send_message_kwargs_long_def send_message_kwargs_def
  by (auto intro!: extends_and_then extends_perform_all extends_perform extends_speak)

lemma extends_send_response_except: "extends w (final (send_response_except cfg ud r e w))"
proof -
  have "extends (emit (log_exception e) w) (final (send_response_except cfg ud r e w))"
    unfolding send_response_except_def send_message_kwargs_long_def send_message_kwargs_def Let_def
    by (auto intro!: extends_and_then extends_perform_all extends_perform extends_speak)
  then show ?thesis by (rule extends_trans[OF extends_emit])
qed

lemma extends_send_response: "extends w (final (send_response cfg ud r w))"
proof (cases "send_response_try cfg ud r w")
  case (Inl x)
  obtain e w1 where x: "x = (e, w1)" by (cases x)
  have "extends w w1" using extends_send_response_try[of w cfg ud r] Inl x
    by (simp add: final_def)
  moreover have "extends w1 (final (send_response_except cfg ud r e w1))"
    by (rule extends_send_response_except)
  ultimately show ?thesis using Inl x
    by (auto simp: send_response_def intro: extends_trans)
next
  case (Inr w1)
  with extends_send_response_try[of w cfg ud r] show ?thesis
    by (simp add: send_response_def final_def)
qed


lemma set_user_simps [simp]:
  "users (set_user uid ud w) = (users w)(uid := ud)"
  "effects (set_user uid ud w) = effects w"
  by (simp_all add: set_user_def)

lemma state_clear_simps [simp]:
  "users (state_clear uid w) = users w"
  "effects (state_clear uid w) = effects w"
  by (simp_all add: state_clear_def)

lemma save_simps [simp]:
  "users (save uid w) = users w"
  "effects (save uid w) = effects w @ [save_user_data uid (users w uid)]"
  by (simp_all add: save_def)

lemma report_error_simps [simp]:
  "users (report_error e w) = users w"
  by (simp add: report_error_def)

lemma checkAccess_users [simp]: "users (snd (checkAccess cfg u w)) = users w"
  by (simp add: checkAccess_def)

text \<open>
  What the outer \<open>try\<close> does: it records the request, adds nothing to another user's
  history and at most one assistant entry to the caller's.
\<close>

lemma chat_try_frame:
  "(\<exists>es. messages (users (final (chat_try cfg uid pruned w)) v) = messages (users w v) @ es \<and>
     (es = [] \<or> (\<exists>r. v = uid \<and> es = [\<lparr>role = str ''assistant'', content = r\<rparr>]))) \<and>
   (\<exists>fs. effects (final (chat_try cfg uid pruned w)) =
     effects w @ [chat_completions_call (model (users w uid)) (call_messages (users w uid) pruned)] @ fs)"
proof -
  let ?ud = "users w uid"
  let ?req = "call_messages ?ud pruned"
  let ?w0 = "emit (chat_completions_call (model ?ud) ?req) w"
  show ?thesis
  proof (cases "chat_completions_create cfg (model ?ud) ?req")
    case (Inl e)
    then have "final (chat_try cfg uid pruned w) = ?w0"
      by (simp add: chat_try_def Let_def final_def)
    then show ?thesis by simp
  next
    case (Inr r)
    show ?thesis
    proof (cases "perform cfg (send_chat_action (str ''typing'')) ?w0")
      case (Inl x)
      obtain e w1 where x: "x = (e, w1)" by (cases x)
      have "extends ?w0 w1"
        using extends_perform[of ?w0 cfg "send_chat_action (str ''typing'')"] Inl x
        by (simp add: final_def)
      moreover have "final (chat_try cfg uid pruned w) = w1"
        using Inr Inl x by (simp add: chat_try_def Let_def and_then_def final_def)
      ultimately show ?thesis by (auto simp: extends_def)
    next
      case w1: (Inr w1)
      have e1: "extends ?w0 w1"
        using extends_perform[of ?w0 cfg "send_chat_action (str ''typing'')"] w1
        by (simp add: final_def)
      let ?ud1 = "users w1 uid"
      let ?w2 = "set_user uid (?ud1\<lparr>messages := messages ?ud1 @
                          [\<lparr>role = str ''assistant'', content = r\<rparr>],
                        count_messages := count_messages ?ud1 + 1\<rparr>) w1"
      let ?rest = "and_then (perform cfg (save_user_data uid (users ?w2 uid)) ?w2) (\<lambda>w3.
                 and_then (perform cfg delete_message w3) (\<lambda>w4.
                   send_response cfg (users w4 uid) r w4))"
      have ext: "extends ?w2 (final ?rest)"
        by (intro extends_and_then extends_perform extends_send_response)
      have fin: "final (chat_try cfg uid pruned w) = final ?rest"
        using Inr w1 by (simp add: chat_try_def Let_def and_then_def)
      have u: "users (final ?rest) = users ?w2" using ext by (simp add: extends_def)
      have u1: "users w1 = users w" using e1 by (simp add: extends_def)
      obtain fs1 where fs1: "effects w1 = effects ?w0 @ fs1" using e1 by (auto simp: extends_def)
      obtain fs2 where fs2: "effects (final ?rest) = effects ?w2 @ fs2"
        using ext by (auto simp: extends_def)
      have "\<exists>es. messages (users (final ?rest) v) = messages (users w v) @ es \<and>
          (es = [] \<or> (\<exists>r. v = uid \<and> es = [\<lparr>role = str ''assistant'', content = r\<rparr>]))"
        using u u1 by simp
      moreover have "\<exists>fs. effects (final ?rest) =
          effects w @ [chat_completions_call (model ?ud) ?req] @ fs"
        using fs1 fs2 by simp
      ultimately show ?thesis unfolding fin by blast
    qed
  qed
qed


lemma checkAccess_cases:
  obtains "checkAccess cfg u w = (True, w)"
  | w1 where "checkAccess cfg u w = (False, w1)" "users w1 = users w"
  by (cases "fst (checkAccess cfg u w)") (auto simp: checkAccess_def split: if_splits)

lemma chat_handler_history:
  "\<exists>es. messages (users (chatgpt_text_handler cfg m w) v) = messages (users w v) @ es \<and>
     (es = [] \<or> (v = from_user_id m \<and>
        (es = [\<lparr>role = str ''user'', content = user_prompt_of m\<rparr>] \<or>
         (\<exists>r. es = [\<lparr>role = str ''user'', content = user_prompt_of m\<rparr>,
                    \<lparr>role = str ''assistant'', content = r\<rparr>]))))"
proof (cases rule: checkAccess_cases[of cfg "from_user_id m" w])
  case 2
  then show ?thesis by (simp add: chatgpt_text_handler_def)
next
  case 1
  let ?uid = "from_user_id m"
  let ?w2 = "emit (answer processing_text HTML None) w"
  let ?ud = "users ?w2 ?uid"
  show ?thesis
  proof (cases "simple_bot_responses cfg (user_prompt_of m)")
    case (Some a)
    with 1 show ?thesis by (simp add: chatgpt_text_handler_def Let_def)
  next
    case None
    show ?thesis
    proof (cases "model ?ud = str ''gpt-4o-mini'' \<or> model ?ud = str ''gpt-4o''
                    \<or> model ?ud = str ''o1-mini'' \<or> model ?ud = str ''o1-preview''")
      case False
      with 1 None show ?thesis
        by (simp add: chatgpt_text_handler_def Let_def image_branch_def split: sum.splits)
    next
      case True
      let ?w3 = "set_user ?uid
          (?ud\<lparr>messages := messages ?ud @ [\<lparr>role = str ''user'', content = user_prompt_of m\<rparr>]\<rparr>) ?w2"
      let ?pruned = "prune_messages (messages (users ?w3 ?uid)) (max_out (users ?w3 ?uid))"
      let ?r = "chat_try cfg ?uid ?pruned ?w3"
      have h: "chatgpt_text_handler cfg m w =
          (case ?r of Inr w' \<Rightarrow> w' | Inl (e, w') \<Rightarrow> report_error e w')"
        using 1 None True by (simp add: chatgpt_text_handler_def Let_def)
      have u: "users (chatgpt_text_handler cfg m w) = users (final ?r)"
        unfolding h by (simp add: final_def split: sum.splits prod.splits)
      from chat_try_frame[of cfg ?uid ?pruned ?w3 v]
      obtain es where es: "messages (users (final ?r) v) = messages (users ?w3 v) @ es"
        and es': "es = [] \<or> (\<exists>r. v = ?uid \<and> es = [\<lparr>role = str ''assistant'', content = r\<rparr>])"
        by blast
      show ?thesis
      proof (cases "v = ?uid")
        case True
        with es es' u show ?thesis by auto
      next
        case False
        with es es' u show ?thesis by auto
      qed
    qed
  qed
qed

lemma chat_handler_request:
  assumes "fst (checkAccess cfg (from_user_id m) w)"
    and "simple_bot_responses cfg (user_prompt_of m) = None"
    and "model (users w (from_user_id m)) = str ''gpt-4o-mini'' \<or>
         model (users w (from_user_id m)) = str ''gpt-4o'' \<or>
         model (users w (from_user_id m)) = str ''o1-mini'' \<or>
         model (users w (from_user_id m)) = str ''o1-preview''"
  shows "\<exists>fs. effects (chatgpt_text_handler cfg m w) =
     effects w @
       [answer processing_text HTML None,
        chat_completions_call (model (users w (from_user_id m)))
          (call_messages (users w (from_user_id m))
             (prune_messages
                (messages (users w (from_user_id m)) @
                   [\<lparr>role = str ''user'', content = user_prompt_of m\<rparr>])
                (max_out (users w (from_user_id m)))))] @ fs"
proof -
  let ?uid = "from_user_id m"
  let ?w2 = "emit (answer processing_text HTML None) w"
  let ?ud = "users ?w2 ?uid"
  let ?w3 = "set_user ?uid
      (?ud\<lparr>messages := messages ?ud @ [\<lparr>role = str ''user'', content = user_prompt_of m\<rparr>]\<rparr>) ?w2"
  let ?pruned = "prune_messages (messages (users ?w3 ?uid)) (max_out (users ?w3 ?uid))"
  let ?r = "chat_try cfg ?uid ?pruned ?w3"
  have ca: "checkAccess cfg ?uid w = (True, w)" using assms(1) by (rule checkAccess_granted)
  have h: "chatgpt_text_handler cfg m w =
      (case ?r of Inr w' \<Rightarrow> w' | Inl (e, w') \<Rightarrow> report_error e w')"
    using ca assms(2,3) by (simp add: chatgpt_text_handler_def Let_def)
  from chat_try_frame[of cfg ?uid ?pruned ?w3 ?uid]
  obtain fs where fs: "effects (final ?r) =
     effects ?w3 @ [chat_completions_call (model (users ?w3 ?uid))
        (call_messages (users ?w3 ?uid) ?pruned)] @ fs"
    by blast
  have cm: "call_messages (users ?w3 ?uid) ?pruned =
      call_messages (users w ?uid)
        (prune_messages (messages (users w ?uid) @
           [\<lparr>role = str ''user'', content = user_prompt_of m\<rparr>]) (max_out (users w ?uid)))"
    by (simp add: call_messages_def)
  have "\<exists>gs. effects (chatgpt_text_handler cfg m w) = effects (final ?r) @ gs"
    unfolding h by (auto simp: final_def report_error_def split: sum.splits prod.splits)
  then obtain gs where "effects (chatgpt_text_handler cfg m w) = effects (final ?r) @ gs" ..
  with fs cm show ?thesis by simp
qed


lemma access_users:
  "users (case checkAccess cfg u w of (True, w1) \<Rightarrow> f w1 | (False, w1) \<Rightarrow> w1) =
   (if fst (checkAccess cfg u w) then users (f w) else users w)"
  by (cases rule: checkAccess_cases[of cfg u w]) simp_all

lemma with_access_users:
  "users (with_access cfg cq w f) =
   (if fst (checkAccess cfg (cb_message_from_user_id cq) w) then users (f w) else users w)"
  by (simp add: with_access_def access_users)

lemma foldl_emit_users:
  "users (foldl (\<lambda>w chunk. emit (g chunk) w) w cs) = users w"
  by (induction cs arbitrary: w) simp_all

lemma send_history_users [simp]: "users (send_history uid h w) = users w"
  by (simp add: send_history_def Let_def foldl_emit_users split: prod.splits)

lemma handle_history:
  "(\<exists>m. ev = Start m) \<or> (\<exists>q. ev = Clear q) \<or>
   (\<exists>es. messages (users (handle cfg ev w) v) = messages (users w v) @ es)"
proof (cases ev)
  case (Chat m)
  with chat_handler_history[of cfg m w v] show ?thesis by auto
next
  case (Photo m)
  show ?thesis
  proof (cases rule: checkAccess_cases[of cfg "from_user_id m" w])
    case 1
    then show ?thesis using Photo
      by (auto simp: chatgpt_photo_vision_handler_def Let_def perform_def and_then_def
          split: sum.splits option.splits prod.splits)
  next
    case 2
    then show ?thesis using Photo by (simp add: chatgpt_photo_vision_handler_def)
  qed
next
  case (New_value m)
  then show ?thesis
    by (cases rule: checkAccess_cases[of cfg "from_user_id m" w])
       (auto simp: process_new_value_def Let_def split: option.splits)
qed (simp_all add: Let_def with_access_users access_users
      enable_all_access_def disable_all_access_def process_key_button_def help_handler_def
      process_callback_model_choice_def process_callback_gpt_4o_mini_def
      process_callback_gpt_4_o_def process_callback_gpt_o1_mini_def
      process_callback_gpt_o1_preview_def process_callback_dall_e_3_def
      process_callback_menu_pic_setup_def process_callback_set_sd_def
      process_callback_set_hd_def set_pic_grade_def set_pic_size_def
      process_callback_set_1024x1024_def process_callback_set_1024x1792_def
      process_callback_set_1792x1024_def process_callback_context_work_def
      process_callback_context_def process_callback_voice_answer_work_def
      process_callback_voice_answer_add_def process_callback_voice_answer_del_def
      process_callback_system_value_work_def process_callback_change_value_def
      process_callback_delete_value_def process_callback_menu_back_def
      process_callback_info_def)


subsection \<open>Claim C8\<close>

text \<open>
  C8 (as amended).  For the models gpt-4o-mini and gpt-4o the system role of the session
  is put in front of the message list given to the model, as a system entry built for
  that call: the request of an admitted chat message starts with it, followed by the
  pruned history that ends with the new user entry.  For every other model the list is
  the pruned history alone, and so is the request of an admitted chat message for
  o1-mini and o1-preview.  The stored history never receives the system entry:
  a run of the handler leaves every history as it was or adds, to the caller's history
  only, the user entry, or the user entry followed by the assistant entry.
\<close>

theorem system_entry_is_transient:
  "((model ud = str ''gpt-4o-mini'' \<or> model ud = str ''gpt-4o'') \<longrightarrow>
      call_messages ud pruned = \<lparr>role = str ''system'', content = system_message ud\<rparr> # pruned) \<and>
   (fst (checkAccess cfg (from_user_id m) w) \<and>
    simple_bot_responses cfg (user_prompt_of m) = None \<and>
    (model (users w (from_user_id m)) = str ''gpt-4o-mini'' \<or>
     model (users w (from_user_id m)) = str ''gpt-4o'') \<longrightarrow>
      (\<exists>fs. effects (chatgpt_text_handler cfg m w) =
         effects w @
           [answer processing_text HTML None,
            chat_completions_call (model (users w (from_user_id m)))
              (\<lparr>role = str ''system'', content = system_message (users w (from_user_id m))\<rparr> #
               prune_messages
                 (messages (users w (from_user_id m)) @
                    [\<lparr>role = str ''user'', content = user_prompt_of m\<rparr>])
                 (max_out (users w (from_user_id m))))] @ fs)) \<and>
   (\<exists>es. messages (users (chatgpt_text_handler cfg m w) v) = messages (users w v) @ es \<and>
      (es = [] \<or> (v = from_user_id m \<and>
         (es = [\<lparr>role = str ''user'', content = user_prompt_of m\<rparr>] \<or>
          (\<exists>r. es = [\<lparr>role = str ''user'', content = user_prompt_of m\<rparr>,
                     \<lparr>role = str ''assistant'', content = r\<rparr>]))))) \<and>
   (model ud \<noteq> str ''gpt-4o-mini'' \<and> model ud \<noteq> str ''gpt-4o'' \<longrightarrow>
      call_messages ud pruned = pruned) \<and>
   (fst (checkAccess cfg (from_user_id m) w) \<and>
    simple_bot_responses cfg (user_prompt_of m) = None \<and>
    (model (users w (from_user_id m)) = str ''o1-mini'' \<or>
     model (users w (from_user_id m)) = str ''o1-preview'') \<longrightarrow>
      (\<exists>fs. effects (chatgpt_text_handler cfg m w) =
         effects w @
           [answer processing_text HTML None,
            chat_completions_call (model (users w (from_user_id m)))
              (prune_messages
                 (messages (users w (from_user_id m)) @
                    [\<lparr>role = str ''user'', content = user_prompt_of m\<rparr>])
                 (max_out (users w (from_user_id m))))] @ fs))"
proof (intro conjI impI)
  assume "model ud \<noteq> str ''gpt-4o-mini'' \<and> model ud \<noteq> str ''gpt-4o''"
  then show "call_messages ud pruned = pruned"
    by (simp add: call_messages_def)
next
  let ?ud = "users w (from_user_id m)"
  assume a: "fst (checkAccess cfg (from_user_id m) w) \<and>
    simple_bot_responses cfg (user_prompt_of m) = None \<and>
    (model ?ud = str ''o1-mini'' \<or> model ?ud = str ''o1-preview'')"
  then have cm: "\<And>p. call_messages ?ud p = p"
    by (auto simp: call_messages_def str_def)
  from a have "\<exists>fs. effects (chatgpt_text_handler cfg m w) =
     effects w @
       [answer processing_text HTML None,
        chat_completions_call (model ?ud)
          (call_messages ?ud
             (prune_messages
                (messages ?ud @ [\<lparr>role = str ''user'', content = user_prompt_of m\<rparr>])
                (max_out ?ud)))] @ fs"
    by (intro chat_handler_request) auto
  then show "\<exists>fs. effects (chatgpt_text_handler cfg m w) =
         effects w @
           [answer processing_text HTML None,
            chat_completions_call (model ?ud)
              (prune_messages
                 (messages ?ud @ [\<lparr>role = str ''user'', content = user_prompt_of m\<rparr>])
                 (max_out ?ud))] @ fs"
    unfolding cm .
next
  assume "model ud = str ''gpt-4o-mini'' \<or> model ud = str ''gpt-4o''"
  then show "call_messages ud pruned =
      \<lparr>role = str ''system'', content = system_message ud\<rparr> # pruned"
    by (auto simp: call_messages_def)
next
  let ?ud = "users w (from_user_id m)"
  assume a: "fst (checkAccess cfg (from_user_id m) w) \<and>
    simple_bot_responses cfg (user_prompt_of m) = None \<and>
    (model ?ud = str ''gpt-4o-mini'' \<or> model ?ud = str ''gpt-4o'')"
  then have cm: "\<And>p. call_messages ?ud p =
      \<lparr>role = str ''system'', content = system_message ?ud\<rparr> # p"
    by (auto simp: call_messages_def)
  from a have "\<exists>fs. effects (chatgpt_text_handler cfg m w) =
     effects w @
       [answer processing_text HTML None,
        chat_completions_call (model ?ud)
          (call_messages ?ud
             (prune_messages
                (messages ?ud @ [\<lparr>role = str ''user'', content = user_prompt_of m\<rparr>])
                (max_out ?ud)))] @ fs"
    by (intro chat_handler_request) auto
  then show "\<exists>fs. effects (chatgpt_text_handler cfg m w) =
         effects w @
           [answer processing_text HTML None,
            chat_completions_call (model ?ud)
              (\<lparr>role = str ''system'', content = system_message ?ud\<rparr> #
               prune_messages
                 (messages ?ud @ [\<lparr>role = str ''user'', content = user_prompt_of m\<rparr>])
                 (max_out ?ud))] @ fs"
    unfolding cm .
next
  show "\<exists>es. messages (users (chatgpt_text_handler cfg m w) v) = messages (users w v) @ es \<and>
      (es = [] \<or> (v = from_user_id m \<and>
         (es = [\<lparr>role = str ''user'', content = user_prompt_of m\<rparr>] \<or>
          (\<exists>r. es = [\<lparr>role = str ''user'', content = user_prompt_of m\<rparr>,
                     \<lparr>role = str ''assistant'', content = r\<rparr>]))))"
    by (rule chat_handler_history)
qed

theorem system_entry_is_transient_witness:
  "call_messages (fresh_user\<lparr>system_message := str ''You always respond as a pirate.''\<rparr>)
     [\<lparr>role = str ''user'', content = str ''hi''\<rparr>] =
   [\<lparr>role = str ''system'', content = str ''You always respond as a pirate.''\<rparr>,
    \<lparr>role = str ''user'', content = str ''hi''\<rparr>] \<and>
   messages (users (chatgpt_text_handler example_env
     \<lparr>from_user_id = 1, text_in = Some (str ''hi''), voice_in = None, caption_in = None\<rparr>
     (startup (\<lambda>_. fresh_user\<lparr>system_message := str ''You always respond as a pirate.''\<rparr>))) 1) =
   [\<lparr>role = str ''user'', content = str ''hi''\<rparr>,
    \<lparr>role = str ''assistant'', content = str ''ok''\<rparr>]"
proof
  let ?ud = "fresh_user\<lparr>system_message := str ''You always respond as a pirate.''\<rparr>"
  have m: "model ?ud = str ''gpt-4o-mini'' \<or> model ?ud = str ''gpt-4o''"
    by (simp add: fresh_user_def)
  have "call_messages ?ud [\<lparr>role = str ''user'', content = str ''hi''\<rparr>] =
      \<lparr>role = str ''system'', content = system_message ?ud\<rparr> #
        [\<lparr>role = str ''user'', content = str ''hi''\<rparr>]"
    using system_entry_is_transient [of ?ud "[\<lparr>role = str ''user'', content = str ''hi''\<rparr>]"] m
    by blast
  then show "call_messages ?ud [\<lparr>role = str ''user'', content = str ''hi''\<rparr>] =
      [\<lparr>role = str ''system'', content = str ''You always respond as a pirate.''\<rparr>,
       \<lparr>role = str ''user'', content = str ''hi''\<rparr>]"
    by simp
next
  show "messages (users (chatgpt_text_handler example_env
     \<lparr>from_user_id = 1, text_in = Some (str ''hi''), voice_in = None, caption_in = None\<rparr>
     (startup (\<lambda>_. fresh_user\<lparr>system_message := str ''You always respond as a pirate.''\<rparr>))) 1) =
   [\<lparr>role = str ''user'', content = str ''hi''\<rparr>,
    \<lparr>role = str ''assistant'', content = str ''ok''\<rparr>]"
    by (simp add: call_messages_def fresh_user_def str_def chatgpt_text_handler_def
      example_env_def checkAccess_def startup_def emit_def user_prompt_of_def set_user_def
      prune_messages_def chat_try_def Let_def perform_def and_then_def send_response_def
      send_response_try_def fence_def send_message_kwargs_def speak_def final_def)
qed

text \<open>
  The claim as stated, for every chat exchange, fails for the o1 models: the request
  carries no system entry although the session has a system role.
\<close>

theorem o1_request_has_no_system_entry:
  "call_messages (fresh_user\<lparr>model := str ''o1-mini'', system_message := str ''You always respond as a pirate.''\<rparr>)
     [\<lparr>role = str ''user'', content = str ''hi''\<rparr>] =
   [\<lparr>role = str ''user'', content = str ''hi''\<rparr>] \<and>
   effects (chatgpt_text_handler example_env
     \<lparr>from_user_id = 1, text_in = Some (str ''hi''), voice_in = None, caption_in = None\<rparr>
     (startup (\<lambda>_. fresh_user\<lparr>model := str ''o1-mini'',
        system_message := str ''You always respond as a pirate.''\<rparr>))) ! 1 =
   chat_completions_call (str ''o1-mini'') [\<lparr>role = str ''user'', content = str ''hi''\<rparr>]"
  by (simp add: call_messages_def fresh_user_def str_def chatgpt_text_handler_def
      example_env_def checkAccess_def startup_def emit_def user_prompt_of_def set_user_def
      prune_messages_def chat_try_def Let_def perform_def and_then_def send_response_def
      send_response_try_def fence_def send_message_kwargs_def speak_def final_def)

lemma start_empties_history:
  "fst (checkAccess cfg (from_user_id m) w) \<Longrightarrow>
   messages (users (command_start_handler cfg m w) (from_user_id m)) = []"
  by (simp add: command_start_handler_def access_users Let_def)

lemma clear_empties_history:
  "fst (checkAccess cfg (cb_message_from_user_id q) w) \<Longrightarrow>
   messages (users (process_callback_clear cfg q w) (cb_from_user_id q)) = []"
  by (simp add: process_callback_clear_def with_access_users Let_def)

section \<open>Properties of prune_messages on the object store\<close>

lemma get_dict_update:
  "get_list h p = Some q \<Longrightarrow> get_dict (h[p := PyList z]) a = get_dict h a"
  by (auto simp: get_dict_def get_list_def nth_list_update split: if_splits pyobj.splits)

lemma get_dict_append: "get_dict h a = Some m \<Longrightarrow> get_dict (h @ [x]) a = Some m"
  by (auto simp: get_dict_def nth_append split: if_splits)

lemma get_dict_new: "get_dict (h @ [Dict m]) (length h) = Some m"
  by (simp add: get_dict_def)

lemma get_list_update: "get_list h p = Some q \<Longrightarrow> get_list (h[p := PyList z]) p = Some z"
  by (auto simp: get_list_def split: if_splits)

lemma get_list_append: "get_list h p = Some q \<Longrightarrow> get_list (h @ [x]) p = Some q"
  by (auto simp: get_list_def nth_append split: if_splits)

lemma get_list_new: "get_list (h @ [PyList xs]) (length h) = Some xs"
  by (simp add: get_list_def)

lemma deref_all_update:
  assumes "get_list h p = Some q"
  shows "deref_all (h[p := PyList z]) xs = deref_all h xs"
proof (induction xs)
  case Nil
  then show ?case by simp
next
  case (Cons a xs)
  have "get_dict (h[p := PyList z]) a = get_dict h a"
    using assms by (rule get_dict_update)
  with Cons show ?case by (simp split: option.splits)
qed

lemma deref_all_append: "deref_all h xs = Some ms \<Longrightarrow> deref_all (h @ [x]) xs = Some ms"
  by (induction xs arbitrary: ms) (auto simp: get_dict_append split: option.splits)

lemma deref_all_snoc:
  "deref_all h xs = Some ms \<Longrightarrow> get_dict h a = Some m \<Longrightarrow>
   deref_all h (xs @ [a]) = Some (ms @ [m])"
  by (induction xs arbitrary: ms) (auto split: option.splits)

lemma deref_all_rev: "deref_all h xs = Some ms \<Longrightarrow> deref_all h (rev xs) = Some (rev ms)"
  by (induction xs arbitrary: ms) (auto simp: deref_all_snoc split: option.splits)

lemma take_update_above: "n \<le> p \<Longrightarrow> take n (h[p := x]) = take n h"
  by simp

lemma prune_loop_heap_spec:
  assumes "deref_all h as = Some ms" "get_list h p = Some ps" "deref_all h ps = Some acc" "n \<le> p"
  shows "\<exists>h' ps'. prune_loop_heap h as b p t = Some h' \<and> take n h' = take n h \<and>
     length h \<le> length h' \<and> get_list h' p = Some ps' \<and>
     deref_all h' ps' = Some (prune_loop ms b acc t)"
  using assms
proof (induction as arbitrary: h ms ps acc t)
  case Nil
  then show ?case by simp
next
  case (Cons a as)
  from Cons.prems(1) obtain m ms' where m: "get_dict h a = Some m"
    and ms': "deref_all h as = Some ms'" and ms: "ms = m # ms'"
    by (auto split: option.splits)
  have pl: "p < length h" using Cons.prems(2) by (auto simp: get_list_def split: if_splits)
  show ?case
  proof (cases "b - t \<le> 0")
    case True
    with m ms Cons.prems show ?thesis by simp
  next
    case False
    show ?thesis
    proof (cases "int (length (content m)) > b - t")
      case True
      let ?d = "\<lparr>role = role m, content = take (nat (b - t)) (content m)\<rparr>"
      let ?h1 = "h @ [Dict ?d]"
      let ?h' = "?h1[p := PyList (ps @ [length h])]"
      have gl1: "get_list ?h1 p = Some ps" using Cons.prems(2) by (rule get_list_append)
      have run: "prune_loop_heap h (a # as) b p t = Some ?h'"
        using m False True gl1 by (simp add: Let_def list_append_def)
      have tk: "take n ?h' = take n h" using Cons.prems(4) pl by simp
      have gl: "get_list ?h' p = Some (ps @ [length h])" using gl1 by (rule get_list_update)
      have "deref_all ?h1 ps = Some acc" using Cons.prems(3) by (rule deref_all_append)
      then have "deref_all ?h1 (ps @ [length h]) = Some (acc @ [?d])"
        by (rule deref_all_snoc) (rule get_dict_new)
      then have dr: "deref_all ?h' (ps @ [length h]) = Some (acc @ [?d])"
        using deref_all_update[OF gl1] by simp
      have "prune_loop ms b acc t = acc @ [?d]"
        using ms False True by (simp add: Let_def)
      with run tk gl dr show ?thesis by simp
    next
      case F2: False
      let ?h2 = "h[p := PyList (ps @ [a])]"
      have la: "list_append h p a = Some ?h2" using Cons.prems(2) by (simp add: list_append_def)
      have run: "prune_loop_heap h (a # as) b p t =
          prune_loop_heap ?h2 as b p (t + int (length (content m)))"
        using m False F2 la by (simp add: Let_def)
      have d1: "deref_all ?h2 as = Some ms'"
        using deref_all_update[OF Cons.prems(2)] ms' by simp
      have g2: "get_list ?h2 p = Some (ps @ [a])" using Cons.prems(2) by (rule get_list_update)
      have "deref_all h (ps @ [a]) = Some (acc @ [m])"
        using Cons.prems(3) m by (rule deref_all_snoc)
      then have d2: "deref_all ?h2 (ps @ [a]) = Some (acc @ [m])"
        using deref_all_update[OF Cons.prems(2)] by simp
      from Cons.IH[OF d1 g2 d2 Cons.prems(4), of "t + int (length (content m))"]
      obtain h' ps' where r: "prune_loop_heap ?h2 as b p (t + int (length (content m))) = Some h'"
        "take n h' = take n ?h2" "length ?h2 \<le> length h'" "get_list h' p = Some ps'"
        "deref_all h' ps' = Some (prune_loop ms' b (acc @ [m]) (t + int (length (content m))))"
        by blast
      have "prune_loop ms b acc t = prune_loop ms' b (acc @ [m]) (t + int (length (content m)))"
        using ms False F2 by (simp add: Let_def)
      with r run Cons.prems(4) show ?thesis by simp
    qed
  qed
qed


lemma get_dict_extend: "get_dict h a = Some m \<Longrightarrow> get_dict (h @ ys) a = Some m"
  by (auto simp: get_dict_def nth_append split: if_splits)

lemma get_list_extend: "get_list h l = Some xs \<Longrightarrow> get_list (h @ ys) l = Some xs"
  by (auto simp: get_list_def nth_append split: if_splits)

lemma deref_all_extend: "deref_all h xs = Some ms \<Longrightarrow> deref_all (h @ ys) xs = Some ms"
  by (induction xs arbitrary: ms) (auto simp: get_dict_extend split: option.splits)

lemma view_extend: "view h l = Some ms \<Longrightarrow> view (h @ ys) l = Some ms"
  by (auto simp: view_def get_list_extend deref_all_extend split: option.splits)

text \<open>
  On the store, \<open>prune_messages\<close> returns; it changes no object that was there before
  the call; the list it returns is a new object and holds the messages that the
  function on values computes.
\<close>

lemma prune_messages_heap_spec:
  assumes "view h l = Some ms"
  shows "\<exists>h' r. prune_messages_heap h l b = Some (h', r) \<and> take (length h) h' = h \<and>
     length h \<le> r \<and> view h' r = Some (prune_messages ms b) \<and> view h' l = Some ms"
proof -
  from assms obtain xs where xs: "get_list h l = Some xs" and d: "deref_all h xs = Some ms"
    by (auto simp: view_def split: option.splits)
  let ?p = "length h"
  let ?h1 = "h @ [PyList []]"
  have d1: "deref_all ?h1 (rev xs) = Some (rev ms)"
    using d by (intro deref_all_rev deref_all_extend)
  have g1: "get_list ?h1 ?p = Some []" by (rule get_list_new)
  have a1: "deref_all ?h1 [] = Some []" by simp
  from prune_loop_heap_spec[OF d1 g1 a1 order_refl, of b 0]
  obtain h2 ps where run: "prune_loop_heap ?h1 (rev xs) b ?p 0 = Some h2"
    and tk: "take ?p h2 = take ?p ?h1" and len: "length ?h1 \<le> length h2"
    and g2: "get_list h2 ?p = Some ps"
    and d2: "deref_all h2 ps = Some (prune_loop (rev ms) b [] 0)"
    by blast
  let ?h' = "h2 @ [PyList (rev ps)]"
  have res: "prune_messages_heap h l b = Some (?h', length h2)"
    using xs run g2 by (simp add: prune_messages_heap_def Let_def)
  have tk': "take ?p ?h' = h" using tk len by simp
  have "deref_all ?h' (rev ps) = Some (rev (prune_loop (rev ms) b [] 0))"
    using d2 by (intro deref_all_rev deref_all_extend)
  then have v: "view ?h' (length h2) = Some (prune_messages ms b)"
    by (simp add: view_def get_list_new prune_messages_def)
  have "take ?p ?h' @ drop ?p ?h' = ?h'" by (rule append_take_drop_id)
  then have "?h' = h @ drop ?p ?h'" unfolding tk' by (rule sym)
  then have vl: "view ?h' l = Some ms"
    using view_extend[OF assms, of "drop ?p ?h'"] by simp
  from res tk' len v vl show ?thesis by simp
qed

lemma prune_messages_heap_twice:
  assumes "view h l = Some ms"
  shows "\<exists>h' r. prune_messages_heap h l b = Some (h', r) \<and> take (length h) h' = h \<and>
     length h \<le> r \<and> view h' r = Some (prune_messages ms b) \<and>
     (\<exists>h'' r'. prune_messages_heap h' l b = Some (h'', r') \<and> take (length h) h'' = h \<and>
        view h'' r' = Some (prune_messages ms b))"
proof -
  from prune_messages_heap_spec[OF assms, of b]
  obtain h' r where 1: "prune_messages_heap h l b = Some (h', r)" "take (length h) h' = h"
    "length h \<le> r" "view h' r = Some (prune_messages ms b)" "view h' l = Some ms"
    by blast
  from prune_messages_heap_spec[OF 1(5), of b]
  obtain h'' r' where 2: "prune_messages_heap h' l b = Some (h'', r')" "take (length h') h'' = h'"
    "view h'' r' = Some (prune_messages ms b)"
    by blast
  have "length h \<le> length h'" using 1(2) by (metis length_take min.cobounded1 min.commute)
  then have "take (length h) h'' = take (length h) (take (length h') h'')"
    by (simp add: min_def)
  then have "take (length h) h'' = h" using 2(2) 1(2) by simp
  with 1 2 show ?thesis by blast
qed

subsection \<open>Claim C9\<close>

text \<open>
  C9 (as amended).  \<open>prune_messages\<close> does not mutate its input: on the object store
  it returns, every object that was there before the call (the list \<open>messages\<close>, its
  entries, and all others) is as it was, and the result is a new list; a second call with
  the same arguments returns a list with the same messages and again changes nothing.
  The history of a user is emptied only by the clear operation and by \<open>/start\<close>: both
  leave the caller's history empty when the caller is admitted, and every other handler
  leaves a history as it was or appends to it.
\<close>

theorem prune_messages_leaves_history:
  "(view h l = Some ms \<longrightarrow>
      (\<exists>h' r. prune_messages_heap h l b = Some (h', r) \<and> take (length h) h' = h \<and>
         length h \<le> r \<and> view h' r = Some (prune_messages ms b) \<and>
         (\<exists>h'' r'. prune_messages_heap h' l b = Some (h'', r') \<and> take (length h) h'' = h \<and>
            view h'' r' = Some (prune_messages ms b)))) \<and>
   ((\<exists>m. ev = Start m) \<or> (\<exists>q. ev = Clear q) \<or>
    (\<exists>es. messages (users (handle cfg ev w) v) = messages (users w v) @ es)) \<and>
   (fst (checkAccess cfg (from_user_id m) w) \<longrightarrow>
      messages (users (handle cfg (Start m) w) (from_user_id m)) = []) \<and>
   (fst (checkAccess cfg (cb_message_from_user_id q) w) \<longrightarrow>
      messages (users (handle cfg (Clear q) w) (cb_from_user_id q)) = [])"
  using prune_messages_heap_twice[of h l ms b] handle_history[of ev cfg w v]
    start_empties_history[of cfg m w] clear_empties_history[of cfg q w]
  by simp

theorem prune_messages_leaves_history_witness:
  "view [Dict \<lparr>role = str ''user'', content = str ''hello''\<rparr>,
         Dict \<lparr>role = str ''assistant'', content = str ''hi''\<rparr>, PyList [0, 1]] 2 =
     Some [\<lparr>role = str ''user'', content = str ''hello''\<rparr>,
           \<lparr>role = str ''assistant'', content = str ''hi''\<rparr>] \<and>
   prune_messages_heap
     [Dict \<lparr>role = str ''user'', content = str ''hello''\<rparr>,
      Dict \<lparr>role = str ''assistant'', content = str ''hi''\<rparr>, PyList [0, 1]] 2 5 =
   Some ([Dict \<lparr>role = str ''user'', content = str ''hello''\<rparr>,
          Dict \<lparr>role = str ''assistant'', content = str ''hi''\<rparr>, PyList [0, 1],
          PyList [1, 4], Dict \<lparr>role = str ''user'', content = str ''hel''\<rparr>, PyList [4, 1]], 5) \<and>
   take 3 [Dict \<lparr>role = str ''user'', content = str ''hello''\<rparr>,
          Dict \<lparr>role = str ''assistant'', content = str ''hi''\<rparr>, PyList [0, 1],
          PyList [1, 4], Dict \<lparr>role = str ''user'', content = str ''hel''\<rparr>, PyList [4, 1]] =
     [Dict \<lparr>role = str ''user'', content = str ''hello''\<rparr>,
      Dict \<lparr>role = str ''assistant'', content = str ''hi''\<rparr>, PyList [0, 1]]"
proof -
  let ?h = "[Dict \<lparr>role = str ''user'', content = str ''hello''\<rparr>,
      Dict \<lparr>role = str ''assistant'', content = str ''hi''\<rparr>, PyList [0, 1]]"
  let ?ms = "[\<lparr>role = str ''user'', content = str ''hello''\<rparr>,
           \<lparr>role = str ''assistant'', content = str ''hi''\<rparr>]"
  let ?h1 = "[Dict \<lparr>role = str ''user'', content = str ''hello''\<rparr>,
          Dict \<lparr>role = str ''assistant'', content = str ''hi''\<rparr>, PyList [0, 1],
          PyList [1, 4], Dict \<lparr>role = str ''user'', content = str ''hel''\<rparr>, PyList [4, 1]]"
  have v: "view ?h 2 = Some ?ms"
    by (simp add: view_def get_list_def get_dict_def)
  have e: "prune_messages_heap ?h 2 5 = Some (?h1, 5)"
    by (simp add: prune_messages_heap_def get_list_def get_dict_def list_append_def Let_def str_def)
  from prune_messages_leaves_history [of ?h 2 ?ms 5] v
  obtain h' r where r: "prune_messages_heap ?h 2 5 = Some (h', r)"
    and t: "take (length ?h) h' = ?h"
    by blast
  from r e have h': "h' = ?h1" by simp
  have "take 3 ?h1 = ?h" using t unfolding h' by simp
  then show ?thesis using v e by (intro conjI)
qed

text \<open>
  The claim as stated fails: \<open>/start\<close> is not the clear operation and empties a history
  that held an entry.
\<close>

theorem start_empties_nonempty_history:
  "messages (users (startup (\<lambda>_. fresh_user\<lparr>messages := [\<lparr>role = str ''user'', content = str ''hi''\<rparr>]\<rparr>)) 1) =
     [\<lparr>role = str ''user'', content = str ''hi''\<rparr>] \<and>
   messages (users (handle example_env
     (Start \<lparr>from_user_id = 1, text_in = Some (str ''/start''), voice_in = None, caption_in = None\<rparr>)
     (startup (\<lambda>_. fresh_user\<lparr>messages := [\<lparr>role = str ''user'', content = str ''hi''\<rparr>]\<rparr>))) 1) = []"
  by (simp add: command_start_handler_def example_env_def checkAccess_def startup_def Let_def)

end
